theory Spec2Isabelle
  imports Complex_Main "HOL-Library.Char_ord" "HOL-Library.List_Lexorder"
begin

section \<open>Values, errors and the parameter catalog\<close>

text \<open>
  The module \<^verbatim>\<open>paramfiles/demo_mock_params.py\<close> is embedded shallowly. Python
  floats are modelled by \<^typ>\<open>real\<close>: rounding, infinities and NaN are outside the
  model. Where numpy would continue with \<^verbatim>\<open>inf\<close> or \<^verbatim>\<open>nan\<close> after a division
  by zero, the model stops with the error value \<open>NonFinite\<close>, since no real number
  stands for the result. Every exception the source can raise is a value of
  \<open>error\<close>, and a result is \<open>Inl e\<close> (raised) or \<open>Inr v\<close> (returned).
\<close>

datatype error =
    KeyError string
  | ValueError
  | NameError string
  | UnboundLocalError string
  | IndexError
  | TypeError
  | ZeroDivisionError
  | NonFinite
  | ExternalError string

definition err_bind :: "error + 'a \<Rightarrow> ('a \<Rightarrow> error + 'b) \<Rightarrow> error + 'b" where
  "err_bind m f = (case m of Inl e \<Rightarrow> Inl e | Inr v \<Rightarrow> f v)"

fun err_all :: "(error + 'a) list \<Rightarrow> error + 'a list" where
  "err_all [] = Inr []"
| "err_all (m # ms) =
     (case m of Inl e \<Rightarrow> Inl e
      | Inr v \<Rightarrow> (case err_all ms of Inl e \<Rightarrow> Inl e | Inr vs \<Rightarrow> Inr (v # vs)))"

text \<open>
  Python values as they occur under \<^verbatim>\<open>'init'\<close> and in the keyword arguments:
  floats, ints, booleans, strings and one-dimensional float arrays.
\<close>

datatype pyval = PyFloat real | PyInt int | PyBool bool | PyStr string | PyArray "real list"

datatype prior = TopHat real real | LogUniform real real

text \<open>
  One dictionary of \<^verbatim>\<open>model_params\<close>. Keys that some entries leave out
  (\<^verbatim>\<open>'init_disp'\<close>, \<^verbatim>\<open>'reinit'\<close>, \<^verbatim>\<open>'units'\<close>) are optional fields;
  \<^verbatim>\<open>'prior': None\<close> is \<open>None\<close>.
\<close>

record param_spec =
  name :: string
  N :: nat
  isfree :: bool
  init :: pyval
  init_disp :: "real option"
  reinit :: "bool option"
  units :: "string option"
  prior :: "prior option"

definition backslash :: char where
  "backslash = CHR 0x5C"

text \<open>The module-level list \<^verbatim>\<open>model_params\<close>, in the order of its \<^verbatim>\<open>append\<close> calls.\<close>

definition model_params :: "param_spec list" where
  "model_params =
   [ \<lparr>name = ''zred'', N = 1, isfree = False, init = PyFloat 0.1,
      init_disp = None, reinit = None, units = Some '''',
      prior = Some (TopHat 0.0 4.0)\<rparr>,
     \<lparr>name = ''sfh'', N = 1, isfree = False, init = PyInt 4,
      init_disp = None, reinit = None, units = Some ''type'',
      prior = None\<rparr>,
     \<lparr>name = ''mass'', N = 2, isfree = True, init = PyFloat 10000000000,
      init_disp = Some 1000000000, reinit = None,
      units = Some (''M_'' @ [backslash] @ ''odot''),
      prior = Some (LogUniform 100000000 1000000000000)\<rparr>,
     \<lparr>name = ''logzsol'', N = 2, isfree = True, init = PyFloat (- 0.3),
      init_disp = Some 0.3, reinit = None,
      units = Some (''$'' @ [backslash] @ ''log (Z/Z_'' @ [backslash] @ ''odot)$''),
      prior = Some (TopHat (- 1.5) 0.19)\<rparr>,
     \<lparr>name = ''pmetals'', N = 1, isfree = False, init = PyInt (- 99),
      init_disp = None, reinit = None, units = None,
      prior = None\<rparr>,
     \<lparr>name = ''tau'', N = 2, isfree = True, init = PyFloat 1.0,
      init_disp = Some 0.5, reinit = None, units = Some ''Gyr'',
      prior = Some (LogUniform 0.101 100)\<rparr>,
     \<lparr>name = ''tage'', N = 2, isfree = True, init = PyFloat 5.0,
      init_disp = Some 3.0, reinit = None, units = Some ''Gyr'',
      prior = Some (TopHat 0.01 14.0)\<rparr>,
     \<lparr>name = ''dust2'', N = 2, isfree = True, init = PyFloat 0.35,
      init_disp = Some 0.3, reinit = Some True,
      units = Some ''Diffuse dust optical depth towards all stars at 5500AA'',
      prior = Some (TopHat 0.0 2.0)\<rparr>,
     \<lparr>name = ''dust_index'', N = 1, isfree = False, init = PyFloat (- 0.7),
      init_disp = None, reinit = None,
      units = Some ''power law slope of the attenuation curve for diffuse dust'',
      prior = None\<rparr>,
     \<lparr>name = ''dust1_index'', N = 1, isfree = False, init = PyFloat (- 1.0),
      init_disp = None, reinit = None,
      units = Some ''power law slope of the attenuation curve for young-star dust'',
      prior = None\<rparr>,
     \<lparr>name = ''dust_type'', N = 1, isfree = False, init = PyInt 0,
      init_disp = None, reinit = None, units = Some ''index'',
      prior = None\<rparr>,
     \<lparr>name = ''add_dust_emission'', N = 1, isfree = False, init = PyBool True,
      init_disp = None, reinit = None, units = Some ''index'',
      prior = None\<rparr>,
     \<lparr>name = ''duste_umin'', N = 1, isfree = False, init = PyFloat 1.0,
      init_disp = None, reinit = None, units = Some ''MMP83 local MW intensity'',
      prior = None\<rparr>,
     \<lparr>name = ''duste_qpah'', N = 1, isfree = False, init = PyFloat 2.0,
      init_disp = None, reinit = None, units = Some ''MMP83 local MW intensity'',
      prior = None\<rparr>,
     \<lparr>name = ''add_neb_emission'', N = 1, isfree = False, init = PyBool False,
      init_disp = None, reinit = None, units = None,
      prior = None\<rparr>,
     \<lparr>name = ''gas_logz'', N = 1, isfree = False, init = PyFloat 0.0,
      init_disp = None, reinit = None,
      units = Some (''log Z/Z_'' @ [backslash] @ ''odot''),
      prior = Some (TopHat (- 2.0) 0.5)\<rparr>,
     \<lparr>name = ''gas_logu'', N = 1, isfree = False, init = PyFloat (- 2.0),
      init_disp = None, reinit = None, units = Some '''',
      prior = Some (TopHat (- 4) (- 1))\<rparr>,
     \<lparr>name = ''phot_jitter'', N = 1, isfree = False, init = PyFloat 0.0,
      init_disp = None, reinit = None, units = Some ''mags'',
      prior = Some (TopHat 0.0 0.2)\<rparr> ]"

text \<open>
  Modelled from the spec: the Theta vector is built by the host framework, which is not
  part of this module. It is the concatenation, in catalog order, of the values of the
  free parameters, each filling its \<open>N\<close> slots.
\<close>

definition theta :: "param_spec list \<Rightarrow> pyval list" where
  "theta cat = concat (map (\<lambda>p. replicate (N p) (init p)) (filter isfree cat))"

section \<open>The model factory\<close>

text \<open>\<^verbatim>\<open>list.index\<close>: the first position of a value, or \<^verbatim>\<open>ValueError\<close>.\<close>

fun index_of :: "'a list \<Rightarrow> 'a \<Rightarrow> nat option" where
  "index_of [] y = None"
| "index_of (x # xs) y =
     (if x = y then Some 0 else map_option Suc (index_of xs y))"

text \<open>\<^verbatim>\<open>np.atleast_1d\<close>: an array stays as it is, a scalar becomes an array of one entry.\<close>

definition atleast_1d :: "pyval \<Rightarrow> pyval list" where
  "atleast_1d v = (case v of PyArray xs \<Rightarrow> map PyFloat xs | _ \<Rightarrow> [v])"

text \<open>
  Modelled from the spec: the model object. Its class is the host framework's; the
  constructor receives the catalog list and sets up the model's current parameter
  mapping, one key per catalog name, holding the entry's initial value as an array.
\<close>

record sed_model =
  config_list :: "param_spec list"
  mparams :: "string \<rightharpoonup> pyval list"

definition SpatialSedModel :: "param_spec list \<Rightarrow> sed_model" where
  "SpatialSedModel cat =
     \<lparr>config_list = cat,
      mparams = fold (\<lambda>p m. m(name p \<mapsto> atleast_1d (init p))) cat Map.empty\<rparr>"

text \<open>
  \<^verbatim>\<open>load_model(zred=0.0, **extras)\<close>. The module-level catalog is mutated in place;
  the model takes the catalog as it is before the call and returns it as it is after
  the call, with the model object built over it.
\<close>

definition load_model :: "pyval \<Rightarrow> param_spec list \<Rightarrow> error + (param_spec list \<times> sed_model)" where
  "load_model zred cat =
     (let pn = map name cat in
      case index_of pn ''zred'' of
        None \<Rightarrow> Inl ValueError
      | Some zind \<Rightarrow>
          (let cat' = cat[zind := (cat ! zind)\<lparr>init := zred\<rparr>]
           in Inr (cat', SpatialSedModel cat')))"

text \<open>Lookup of a catalog entry by name (the first entry of that name).\<close>

definition entry_named :: "param_spec list \<Rightarrow> string \<Rightarrow> param_spec option" where
  "entry_named cat n = find (\<lambda>p. name p = n) cat"

section \<open>numpy operations used by the source\<close>

text \<open>
  Division of floats. numpy divides by zero without raising and continues with
  \<^verbatim>\<open>inf\<close> or \<^verbatim>\<open>nan\<close>; the model reports \<open>NonFinite\<close> there.
\<close>

definition np_div :: "real \<Rightarrow> real \<Rightarrow> error + real" where
  "np_div x y = (if y = 0 then Inl NonFinite else Inr (x / y))"

text \<open>
  Broadcasting of two one-dimensional arrays: equal lengths pair up, a length-one
  array is stretched, anything else raises \<^verbatim>\<open>ValueError\<close>.
\<close>

definition broadcast :: "('a \<Rightarrow> 'b \<Rightarrow> 'c) \<Rightarrow> 'a list \<Rightarrow> 'b list \<Rightarrow> error + 'c list" where
  "broadcast f xs ys =
     (if length xs = length ys then Inr (map2 f xs ys)
      else if length xs = 1 then Inr (map (f (hd xs)) ys)
      else if length ys = 1 then Inr (map (\<lambda>x. f x (hd ys)) xs)
      else Inl ValueError)"

definition np_divide :: "real list \<Rightarrow> real list \<Rightarrow> error + real list" where
  "np_divide xs ys = err_bind (broadcast np_div xs ys) err_all"

definition np_multiply :: "real list \<Rightarrow> real list \<Rightarrow> error + real list" where
  "np_multiply xs ys = broadcast (\<lambda>x y. x * y) xs ys"

definition np_add :: "real list \<Rightarrow> real list \<Rightarrow> error + real list" where
  "np_add xs ys = broadcast (\<lambda>x y. x + y) xs ys"

text \<open>\<^verbatim>\<open>a.min()\<close> and \<^verbatim>\<open>a.max()\<close>: \<^verbatim>\<open>ValueError\<close> on an empty array.\<close>

fun np_min :: "real list \<Rightarrow> error + real" where
  "np_min [] = Inl ValueError"
| "np_min (x # xs) = Inr (fold min xs x)"

fun np_max :: "real list \<Rightarrow> error + real" where
  "np_max [] = Inl ValueError"
| "np_max (x # xs) = Inr (fold max xs x)"

text \<open>
  \<^verbatim>\<open>np.array(rows)\<close> of a list of one-dimensional arrays: the rows must have one
  common length.
\<close>

definition np_array :: "real list list \<Rightarrow> error + real list list" where
  "np_array rows =
     (case rows of
        [] \<Rightarrow> Inr []
      | r # rs \<Rightarrow> if list_all (\<lambda>q. length q = length r) rs then Inr rows else Inl ValueError)"

text \<open>\<^verbatim>\<open>np.dot(v, A)\<close> of a vector with a two-dimensional array of as many rows.\<close>

definition np_dot :: "real list \<Rightarrow> real list list \<Rightarrow> error + real list" where
  "np_dot v rows =
     (if length v \<noteq> length rows then Inl ValueError
      else case rows of
        [] \<Rightarrow> Inr []
      | r # rs \<Rightarrow> Inr (map (\<lambda>l. sum_list (map2 (\<lambda>m row. m * row ! l) v rows)) [0..<length r]))"

definition np_dot1 :: "real list \<Rightarrow> real list \<Rightarrow> error + real" where
  "np_dot1 v w =
     (if length v \<noteq> length w then Inl ValueError
      else Inr (sum_list (map2 (\<lambda>x y. x * y) v w)))"

text \<open>
  The spectra travel through the source either as a two-dimensional array (one row
  per component, then the composite) or, when \<^verbatim>\<open>np.squeeze\<close> has removed a
  wavelength axis of length one, as a one-dimensional array.
\<close>

datatype spec_arr = Flux1 "real list" | Flux2 "real list list"

text \<open>
  \<^verbatim>\<open>np.squeeze\<close> of the stacked spectra. At its call the stack has at least two rows
  of one common length, so only the wavelength axis can be dropped.
\<close>

definition squeeze :: "real list list \<Rightarrow> spec_arr" where
  "squeeze rows =
     (if rows \<noteq> [] \<and> list_all (\<lambda>r. length r = 1) rows then Flux1 (map hd rows)
      else Flux2 rows)"

definition scale_spec :: "real \<Rightarrow> spec_arr \<Rightarrow> spec_arr" where
  "scale_spec k s =
     (case s of
        Flux1 v \<Rightarrow> Flux1 (map (\<lambda>x. x * k) v)
      | Flux2 rows \<Rightarrow> Flux2 (map (map (\<lambda>x. x * k)) rows))"

text \<open>
  \<^verbatim>\<open>A * mass[:, None]\<close> for a two-dimensional \<open>A\<close>: row \<open>i\<close> is multiplied by
  \<open>mass[i]\<close>; a single row is stretched over all masses.
\<close>

definition times_column :: "real list list \<Rightarrow> real list \<Rightarrow> error + real list list" where
  "times_column rows col =
     (if length rows = length col then Inr (map2 (\<lambda>row m. map (\<lambda>x. x * m) row) rows col)
      else if length rows = 1 then Inr (map (\<lambda>m. map (\<lambda>x. x * m) (hd rows)) col)
      else if length col = 1 then Inr (map (map (\<lambda>x. x * hd col)) rows)
      else Inl ValueError)"

text \<open>
  The same product for a one-dimensional \<open>v\<close>: the result has one row per mass,
  row \<open>i\<close> being \<open>v * mass[i]\<close>.
\<close>

definition outer_column :: "real list \<Rightarrow> real list \<Rightarrow> real list list" where
  "outer_column v col = map (\<lambda>m. map (\<lambda>x. x * m) v) col"

text \<open>
  \<^verbatim>\<open>np.unique(names, return_index=True, return_inverse=True)\<close>: the sorted distinct
  names, for each of them the position of its first occurrence, and for each input
  name its position among the distinct ones.
\<close>

fun first_index :: "'a list \<Rightarrow> 'a \<Rightarrow> nat" where
  "first_index [] y = 0"
| "first_index (x # xs) y = (if x = y then 0 else Suc (first_index xs y))"

definition np_unique :: "string list \<Rightarrow> string list \<times> nat list \<times> nat list" where
  "np_unique names =
     (let unique_names = sort (remdups names)
      in (unique_names,
          map (first_index names) unique_names,
          map (first_index unique_names) names))"

text \<open>An integer index into an axis of length \<open>n\<close>; negative indices count from the end.\<close>

definition axis_index :: "nat \<Rightarrow> int \<Rightarrow> error + nat" where
  "axis_index n i =
     (if 0 \<le> i \<and> i < int n then Inr (nat i)
      else if - int n \<le> i \<and> i < 0 then Inr (nat (i + int n))
      else Inl IndexError)"

text \<open>The \<^verbatim>\<open>component\<close> argument: one integer or an integer array.\<close>

datatype component = CompScalar int | CompArray "int list"

definition element :: "real list list \<Rightarrow> int \<Rightarrow> nat \<Rightarrow> error + real" where
  "element arr c k =
     err_bind (axis_index (length arr) c) (\<lambda>r.
       if k < length (arr ! r) then Inr (arr ! r ! k) else Inl IndexError)"

text \<open>
  \<^verbatim>\<open>arr[component, filter_ind]\<close> on a two-dimensional array: the two index arrays are
  broadcast against each other and read pairwise; a scalar component selects one row
  for every filter index.
\<close>

definition fancy_index :: "real list list \<Rightarrow> component \<Rightarrow> nat list \<Rightarrow> error + real list" where
  "fancy_index arr component filter_ind =
     (case component of
        CompScalar c \<Rightarrow>
          err_bind (axis_index (length arr) c) (\<lambda>r.
            err_all (map (element arr c) filter_ind))
      | CompArray cs \<Rightarrow>
          (case broadcast (element arr) cs filter_ind of
             Inl e \<Rightarrow> Inl IndexError
           | Inr ms \<Rightarrow> err_all ms))"

section \<open>The multi-component source: \<^verbatim>\<open>SpatialSource\<close>\<close>

text \<open>
  What the inner single-population engine delivers for one component, after
  \<^verbatim>\<open>update_component(i)\<close>: the wavelength grid and spectrum returned by
  \<^verbatim>\<open>ssp.get_spectrum\<close> and the value of \<^verbatim>\<open>ssp.stellar_mass\<close>.
\<close>

record ssp_out =
  ssp_wave :: "real list"
  ssp_spec :: "real list"
  stellar_mass :: real

text \<open>A filter object of the photometry library: its name and its bandpass.\<close>

record filterband =
  filt_name :: string
  wave_effective :: real
  transmission :: "(real \<times> real) list"

text \<open>
  The entries of \<^verbatim>\<open>self.params\<close> that the source reads, after \<^verbatim>\<open>self.update(**params)\<close>.
  A key that is absent is \<open>None\<close>.
\<close>

record params =
  mass :: "real list option"
  mass_units :: "string option"
  zred :: "real option"
  lumdist :: "real option"
  wavecal_coeffs :: "real list option"

text \<open>
  Everything the source takes from other libraries: the engine (per component index),
  the magnitude of one spectrum through one filter, the cosmological luminosity
  distance, and the three physical constants imported from the engine's constant
  table. \<open>to_cgs\<close> is the module's alias of \<^verbatim>\<open>to_cgs_at_10pc\<close>.
\<close>

record externals =
  ssp_engine :: "nat \<Rightarrow> error + ssp_out"
  ab_mag :: "filterband \<Rightarrow> real list \<Rightarrow> real list \<Rightarrow> error + real"
  luminosity_distance :: "real \<Rightarrow> error + real"
  lightspeed :: real
  jansky_cgs :: real
  to_cgs :: real

subsection \<open>\<^verbatim>\<open>get_galaxy_spectrum\<close>\<close>

definition mass_units_is_mstar :: "params \<Rightarrow> bool" where
  "mass_units_is_mstar ps =
     (case mass_units ps of None \<Rightarrow> False | Some u \<Rightarrow> u = ''mstar'')"

text \<open>
  The loop over the mass components collects one engine result per component. With no
  component the loop body never runs and the final \<^verbatim>\<open>return wave, ...\<close> reads an
  unbound local variable.
\<close>

definition get_galaxy_spectrum :: "externals \<Rightarrow> params \<Rightarrow> error + (real list \<times> spec_arr \<times> real list)" where
  "get_galaxy_spectrum ext ps =
     (case mass ps of
        None \<Rightarrow> Inl (KeyError ''mass'')
      | Some mass0 \<Rightarrow>
          err_bind (err_all (map (ssp_engine ext) [0..<length mass0])) (\<lambda>outs.
          let spectra = map ssp_spec outs;
              mfrac = map stellar_mass outs
          in if outs = [] then Inl (UnboundLocalError ''wave'')
          else
          err_bind (if mass_units_is_mstar ps then np_divide mass0 mfrac else Inr mass0) (\<lambda>mass1.
          err_bind (np_array spectra) (\<lambda>arr.
          err_bind (np_dot mass1 arr) (\<lambda>num.
          err_bind (err_all (map (\<lambda>v. np_div v (sum_list mass1)) num)) (\<lambda>spectrum.
          err_bind (np_dot1 mass1 mfrac) (\<lambda>mnum.
          err_bind (np_div mnum (sum_list mass1)) (\<lambda>mfrac_sum.
          Inr (ssp_wave (last outs), squeeze (spectra @ [spectrum]), mfrac @ [mfrac_sum])))))))))"

subsection \<open>\<^verbatim>\<open>get_spectrum\<close>: redshifting and wavelength solution\<close>

text \<open>
  The names bound at module level: by the import statements, by the assignments and by
  the \<^verbatim>\<open>def\<close> and \<^verbatim>\<open>class\<close> statements of the file. A name that is neither local
  nor in this list (nor a builtin) raises \<^verbatim>\<open>NameError\<close> when it is read.
\<close>

definition module_names :: "string list" where
  "module_names =
     [''deepcopy'', ''np'', ''os'', ''priors'', ''sedmodel'', ''cosmo'',
      ''load_filters'', ''getSED'', ''tophat'', ''run_params'', ''load_obs'',
      ''CSPSpecBasis'', ''SedModel'', ''lightspeed'', ''jansky_cgs'',
      ''to_cgs_at_10pc'', ''to_cgs'', ''SpatialSource'', ''SpatialSedModel'',
      ''load_sps'', ''load_gp'', ''model_params'', ''stellar_logzsol'',
      ''load_model'']"

definition lookup_global :: "string \<Rightarrow> error + unit" where
  "lookup_global n = (if n \<in> set module_names then Inr () else Inl (NameError n))"

text \<open>
  Modelled from the spec: the Chebyshev series \<open>\<Sum>\<^sub>k c\<^sub>k T\<^sub>k(x)\<close> that the name
  \<^verbatim>\<open>chebval\<close> denotes in numpy. The module calls \<^verbatim>\<open>chebval\<close> without importing it;
  the function is given here so that the branch can be written down in full.
\<close>

fun chebT :: "nat \<Rightarrow> real \<Rightarrow> real" where
  "chebT 0 x = 1"
| "chebT (Suc 0) x = x"
| "chebT (Suc (Suc n)) x = 2 * x * chebT (Suc n) x - chebT n x"

definition chebval :: "real \<Rightarrow> real list \<Rightarrow> real" where
  "chebval x c = sum_list (map (\<lambda>k. c ! k * chebT k x) [0..<length c])"

text \<open>
  The value of \<open>b\<close>: \<open>None\<close> stands for the scalar \<^verbatim>\<open>0.0\<close>, \<open>Some bs\<close> for the array
  computed when \<^verbatim>\<open>'wavecal_coeffs'\<close> is a key of the parameters.
\<close>

definition wavelength_solution :: "externals \<Rightarrow> params \<Rightarrow> real list \<Rightarrow> error + real list option" where
  "wavelength_solution ext ps wave =
     (case wavecal_coeffs ps of
        None \<Rightarrow> Inr None
      | Some coeffs \<Rightarrow>
          err_bind (np_min wave) (\<lambda>wmin.
          let x0 = map (\<lambda>w. w - wmin) wave in
          err_bind (np_max x0) (\<lambda>xmax.
          err_bind (err_all (map (\<lambda>v. np_div v xmax) x0)) (\<lambda>q.
          let x = map (\<lambda>v. 2.0 * v - 1.0) q;
              c = 0 # coeffs
          in
          err_bind (lookup_global ''chebval'') (\<lambda>_.
          err_bind (err_all (map (\<lambda>xi. np_div (chebval xi c) (lightspeed ext * (1 / 10 ^ 13))) x)) (\<lambda>b.
          Inr (Some b)))))))"

definition observed_wave :: "real list \<Rightarrow> real \<Rightarrow> real list option \<Rightarrow> error + real list" where
  "observed_wave wave a b =
     (case b of
        None \<Rightarrow> Inr (map (\<lambda>w. w * (a + 0.0)) wave)
      | Some bs \<Rightarrow> np_multiply wave (map (\<lambda>bi. a + bi) bs))"

text \<open>
  The first block of \<^verbatim>\<open>get_spectrum\<close>: the rest-frame spectra, the redshift factor
  \<open>a\<close> (also used for the flux, as \<open>af\<close>), and the observed-frame wavelengths and
  spectra \<open>wa, sa = wave * (a + b), spectrum * af\<close>.
\<close>

definition observed_frame :: "externals \<Rightarrow> params \<Rightarrow> error + (real list \<times> spec_arr \<times> real list)" where
  "observed_frame ext ps =
     err_bind (get_galaxy_spectrum ext ps) (\<lambda>(wave, spectrum, mfrac).
     let a = 1 + (case zred ps of None \<Rightarrow> 0 | Some z \<Rightarrow> z);
         af = a
     in
     err_bind (wavelength_solution ext ps wave) (\<lambda>b.
     err_bind (observed_wave wave a b) (\<lambda>wa.
     Inr (wa, scale_spec af spectrum, mfrac))))"

subsection \<open>\<^verbatim>\<open>get_spectrum\<close>: observed-frame photometry\<close>

text \<open>The flux handed to the photometry library: \<^verbatim>\<open>lightspeed/wa**2 * sa * to_cgs\<close>.\<close>

definition sed_flux :: "externals \<Rightarrow> real list \<Rightarrow> spec_arr \<Rightarrow> error + real list list" where
  "sed_flux ext wa sa =
     err_bind (err_all (map (\<lambda>w. np_div (lightspeed ext) (w ^ 2)) wa)) (\<lambda>fnu.
       case sa of
         Flux1 v \<Rightarrow>
           err_bind (np_multiply fnu v) (\<lambda>row. Inr [map (\<lambda>x. x * to_cgs ext) row])
       | Flux2 rows \<Rightarrow>
           err_bind (err_all (map (np_multiply fnu) rows)) (\<lambda>rs.
             Inr (map (map (\<lambda>x. x * to_cgs ext)) rs)))"

text \<open>
  Modelled from the spec: \<^verbatim>\<open>getSED\<close> belongs to the photometry library. For every
  spectrum (row of the flux) and every filter of the list it integrates the spectrum
  against the filter and gives one magnitude.
\<close>

definition getSED :: "externals \<Rightarrow> real list \<Rightarrow> real list list \<Rightarrow> filterband list \<Rightarrow> error + real list list" where
  "getSED ext wa flux filterlist =
     err_all (map (\<lambda>row. err_all (map (\<lambda>f. ab_mag ext f wa row) filterlist)) flux)"

text \<open>The photometry before indexing: the scalar \<^verbatim>\<open>0.0\<close> or a two-dimensional array.\<close>

datatype phot_arr = Phot0 real | Phot2 "real list list"

text \<open>
  The \<^verbatim>\<open>if filters is not None\<close> block. Besides \<open>phot\<close> it decides whether the local
  variable \<^verbatim>\<open>filter_ind\<close> is bound (\<open>Some\<close>) or not (\<open>None\<close>).
\<close>

definition observed_frame_photometry ::
  "externals \<Rightarrow> real list \<Rightarrow> spec_arr \<Rightarrow> filterband list option \<Rightarrow> error + (phot_arr \<times> nat list option)" where
  "observed_frame_photometry ext wa sa filters =
     (case filters of
        None \<Rightarrow> Inr (Phot0 0.0, None)
      | Some fs \<Rightarrow>
          (let fnames = map filt_name fs;
               filter_ind = snd (snd (np_unique fnames));
               uinds = fst (snd (np_unique fnames));
               unique_filters = map (\<lambda>i. fs ! i) uinds
           in err_bind (sed_flux ext wa sa) (\<lambda>flux.
              err_bind (getSED ext wa flux unique_filters) (\<lambda>mags.
              Inr (Phot2 (map (map (\<lambda>m. 10 powr (- 0.4 * m))) mags), Some filter_ind)))))"

subsection \<open>\<^verbatim>\<open>get_spectrum\<close>: distance dimming, mass normalization\<close>

text \<open>\<^verbatim>\<open>key in d\<close> for a key of a dictionary, given the outcome of looking it up.\<close>

definition has_key :: "'a option \<Rightarrow> bool" where
  "has_key v = (case v of None \<Rightarrow> False | Some x \<Rightarrow> True)"

definition distance_factor :: "externals \<Rightarrow> params \<Rightarrow> error + real" where
  "distance_factor ext ps =
     (let z = (case zred ps of None \<Rightarrow> 0.0 | Some v \<Rightarrow> v)
      in if z = 0 \<or> has_key (lumdist ps)
         then Inr (((case lumdist ps of None \<Rightarrow> 1 / 10 ^ 5 | Some d \<Rightarrow> d) * 10 ^ 5) ^ 2)
         else err_bind (luminosity_distance ext z) (\<lambda>d. Inr ((d * 10 ^ 5) ^ 2)))"

definition phot_div :: "phot_arr \<Rightarrow> real \<Rightarrow> error + phot_arr" where
  "phot_div phot dfactor =
     (case phot of
        Phot0 v \<Rightarrow> err_bind (np_div v dfactor) (\<lambda>q. Inr (Phot0 q))
      | Phot2 rows \<Rightarrow>
          err_bind (err_all (map (\<lambda>row. err_all (map (\<lambda>v. np_div v dfactor) row)) rows)) (\<lambda>rs.
            Inr (Phot2 rs)))"

definition spec_times_mass :: "spec_arr \<Rightarrow> real list \<Rightarrow> error + real list list" where
  "spec_times_mass sa col =
     (case sa of
        Flux1 v \<Rightarrow> Inr (outer_column v col)
      | Flux2 rows \<Rightarrow> times_column rows col)"

definition phot_times_mass :: "phot_arr \<Rightarrow> real list \<Rightarrow> error + real list list" where
  "phot_times_mass phot col =
     (case phot of
        Phot0 v \<Rightarrow> Inr (map (\<lambda>m. [v * m]) col)
      | Phot2 rows \<Rightarrow> times_column rows col)"

text \<open>
  The last two blocks of \<^verbatim>\<open>get_spectrum\<close>: the distance factor, the conversion of
  spectrum and photometry, the multiplication by the masses (the component masses and
  their sum) and the selection \<^verbatim>\<open>[component, filter_ind]\<close>. Reading
  \<^verbatim>\<open>filter_ind\<close> when it was never bound raises \<^verbatim>\<open>UnboundLocalError\<close>.
\<close>

definition dim_and_normalize ::
  "externals \<Rightarrow> params \<Rightarrow> component \<Rightarrow> spec_arr \<Rightarrow> phot_arr \<Rightarrow> nat list option \<Rightarrow> real list
     \<Rightarrow> error + (real list list \<times> real list \<times> real list)" where
  "dim_and_normalize ext ps component sa0 phot0 filter_ind mfrac =
     err_bind (distance_factor ext ps) (\<lambda>dfactor.
     err_bind (np_div (to_cgs ext) dfactor) (\<lambda>q1.
     err_bind (np_div q1 (3631 * jansky_cgs ext)) (\<lambda>q2.
     let sa1 = scale_spec q2 sa0 in
     err_bind (phot_div phot0 dfactor) (\<lambda>phot1.
     err_bind (case mass ps of None \<Rightarrow> Inl (KeyError ''mass'')
               | Some m \<Rightarrow> Inr (m @ [sum_list m])) (\<lambda>mass1.
     err_bind (spec_times_mass sa1 mass1) (\<lambda>sa.
     err_bind (phot_times_mass phot1 mass1) (\<lambda>phot2.
     case filter_ind of
       None \<Rightarrow> Inl (UnboundLocalError ''filter_ind'')
     | Some inds \<Rightarrow>
         err_bind (fancy_index phot2 component inds) (\<lambda>phot.
         Inr (sa, phot, mfrac)))))))))"

text \<open>
  \<^verbatim>\<open>get_spectrum(outwave=None, filters=None, component=-1, **params)\<close>. The argument
  \<^verbatim>\<open>outwave\<close> is only assigned to and never read, so it is left out. The result is the
  triple \<open>(sa, phot, mfrac)\<close>.
\<close>

definition get_spectrum ::
  "externals \<Rightarrow> filterband list option \<Rightarrow> component \<Rightarrow> params
     \<Rightarrow> error + (real list list \<times> real list \<times> real list)" where
  "get_spectrum ext filters component ps =
     err_bind (observed_frame ext ps) (\<lambda>(wa, sa, mfrac).
     err_bind (observed_frame_photometry ext wa sa filters) (\<lambda>(phot, filter_ind).
     dim_and_normalize ext ps component sa phot filter_ind mfrac))"

subsection \<open>Photometry without deduplication\<close>

text \<open>
  The reference against which the deduplication is checked. \<open>project_filters\<close> projects
  the spectra onto a given list of filters, one column per list entry, and
  \<open>spectrum_by_projection\<close> runs the steps of \<^verbatim>\<open>get_spectrum\<close> with that list and reads
  the photometry at the given column positions.
\<close>

definition project_filters :: "externals \<Rightarrow> real list \<Rightarrow> spec_arr \<Rightarrow> filterband list \<Rightarrow> error + phot_arr" where
  "project_filters ext wa sa flist =
     err_bind (sed_flux ext wa sa) (\<lambda>flux.
     err_bind (getSED ext wa flux flist) (\<lambda>mags.
     Inr (Phot2 (map (map (\<lambda>m. 10 powr (- 0.4 * m))) mags))))"

definition spectrum_by_projection ::
  "externals \<Rightarrow> filterband list \<Rightarrow> nat list \<Rightarrow> component \<Rightarrow> params
     \<Rightarrow> error + (real list list \<times> real list \<times> real list)" where
  "spectrum_by_projection ext flist inds component ps =
     err_bind (observed_frame ext ps) (\<lambda>(wa, sa, mfrac).
     err_bind (project_filters ext wa sa flist) (\<lambda>phot.
     dim_and_normalize ext ps component sa phot (Some inds) mfrac))"

text \<open>
  The filter list deduplicated by name, each name kept at its first occurrence and in
  the order of the list; and for every filter of the list the position of its name in
  the deduplicated list.
\<close>

definition dedup_by_name :: "filterband list \<Rightarrow> filterband list" where
  "dedup_by_name fs =
     map (\<lambda>i. fs ! i)
       (filter (\<lambda>i. first_index (map filt_name fs) (filt_name (fs ! i)) = i) [0..<length fs])"

definition expand_index :: "filterband list \<Rightarrow> nat list" where
  "expand_index fs = map (\<lambda>f. first_index (map filt_name (dedup_by_name fs)) (filt_name f)) fs"

text \<open>
  The first filter of the list that has the same name as a given filter: the filter
  that is projected in its place when the list is deduplicated by name.
\<close>

definition representative :: "filterband list \<Rightarrow> filterband \<Rightarrow> filterband" where
  "representative fs f = fs ! first_index (map filt_name fs) (filt_name f)"

text \<open>
  Photometry computed for the deduplicated list and expanded back to the order of the
  original list, and photometry computed for every entry of the original list.
\<close>

definition deduplicated_spectrum ::
  "externals \<Rightarrow> filterband list \<Rightarrow> component \<Rightarrow> params
     \<Rightarrow> error + (real list list \<times> real list \<times> real list)" where
  "deduplicated_spectrum ext fs component ps =
     spectrum_by_projection ext (dedup_by_name fs) (expand_index fs) component ps"

definition undeduplicated_spectrum ::
  "externals \<Rightarrow> filterband list \<Rightarrow> component \<Rightarrow> params
     \<Rightarrow> error + (real list list \<times> real list \<times> real list)" where
  "undeduplicated_spectrum ext fs component ps =
     spectrum_by_projection ext fs [0..<length fs] component ps"

section \<open>The model wrapper: \<^verbatim>\<open>SpatialSedModel.sed\<close>\<close>

text \<open>
  The observation dictionary as the model reads it. \<open>obs_wavelength\<close> and
  \<open>obs_filters\<close> hold the values under \<^verbatim>\<open>'wavelength'\<close> and \<^verbatim>\<open>'filters'\<close> (\<open>None\<close>
  is Python's \<^verbatim>\<open>None\<close>); for the keys read with \<^verbatim>\<open>obs.get\<close>, \<open>None\<close> means that
  the key is absent.
\<close>

record obs_in =
  obs_wavelength :: "real list option"
  obs_filters :: "filterband list option"
  obs_component :: "component option"
  normalization_guess :: "real option"

text \<open>
  The body of the \<^verbatim>\<open>try\<close> block up to the assignment of \<open>tiny\<close>:
  \<^verbatim>\<open>1.0/len(spec)\<close> raises \<^verbatim>\<open>ZeroDivisionError\<close> on an array without rows, and
  \<^verbatim>\<open>.min()\<close> raises \<^verbatim>\<open>ValueError\<close> when no entry is positive. \<open>len\<close> of a
  two-dimensional array is its number of rows.
\<close>

definition tiny_of :: "real list list \<Rightarrow> error + real" where
  "tiny_of spec =
     (if length spec = 0 then Inl ZeroDivisionError
      else err_bind (np_min (filter (\<lambda>v. 0 < v) (concat spec))) (\<lambda>m.
             Inr (1.0 / real (length spec) * m)))"

text \<open>
  The whole \<^verbatim>\<open>try: ... except: pass\<close> statement: any exception leaves the spectrum as
  it was, otherwise every entry below \<open>tiny\<close> is replaced by \<open>tiny\<close>.
\<close>

definition clamp_flux :: "real list list \<Rightarrow> real list list" where
  "clamp_flux spec =
     (case tiny_of spec of
        Inl e \<Rightarrow> spec
      | Inr tiny \<Rightarrow> map (map (\<lambda>v. if v < tiny then tiny else v)) spec)"

text \<open>
  \<^verbatim>\<open>sed(self, theta, obs, sps=None, **kwargs)\<close>. The host framework's
  \<^verbatim>\<open>set_parameters\<close> turns the Theta vector into the parameter mapping passed on to the
  source, and its \<^verbatim>\<open>sky\<close> gives the additive sky term; both are arguments here.
\<close>

definition sed ::
  "externals \<Rightarrow> (real list \<Rightarrow> params) \<Rightarrow> real \<Rightarrow> real list \<Rightarrow> obs_in
     \<Rightarrow> error + (real list list \<times> real list \<times> real list)" where
  "sed ext set_parameters sky theta_vec obs =
     (let ps = set_parameters theta_vec in
      err_bind (get_spectrum ext (obs_filters obs)
                  (case obs_component obs of None \<Rightarrow> CompScalar (- 1) | Some c \<Rightarrow> c) ps)
        (\<lambda>(spec, phot, extras).
           let g = (case normalization_guess obs of None \<Rightarrow> 1.0 | Some v \<Rightarrow> v);
               spec1 = map (map (\<lambda>v. v * g)) spec;
               spec2 = clamp_flux spec1;
               spec3 = map (map (\<lambda>v. v + sky)) spec2
           in Inr (spec3, phot, extras)))"

definition spec_calibration :: real where
  "spec_calibration = 1.0"

section \<open>The mock observation generator: \<^verbatim>\<open>load_obs\<close>\<close>

text \<open>Keyword arguments: a dictionary from names to Python values.\<close>

type_synonym kwargs = "string \<rightharpoonup> pyval"

definition kw_get :: "kwargs \<Rightarrow> string \<Rightarrow> pyval \<Rightarrow> pyval" where
  "kw_get kw k d = (case kw k of None \<Rightarrow> d | Some v \<Rightarrow> v)"

text \<open>\<^verbatim>\<open>load_sps(zcontinuous=1, compute_vega_mags=False, **extras)\<close>: the arguments of the source's constructor.\<close>

record sps_config =
  zcontinuous :: pyval
  compute_vega_mags :: pyval

definition load_sps :: "kwargs \<Rightarrow> sps_config" where
  "load_sps kw =
     \<lparr>zcontinuous = kw_get kw ''zcontinuous'' (PyInt 1),
      compute_vega_mags = kw_get kw ''compute_vega_mags'' (PyBool False)\<rparr>"

text \<open>The \<^verbatim>\<open>snr\<close> argument: a scalar or a vector.\<close>

datatype snr_arg = SnrScalar real | SnrVector "real list"

text \<open>
  What \<^verbatim>\<open>load_obs\<close> takes from outside the module: the environment variable
  \<^verbatim>\<open>APPS\<close>, the directory listing, the filter loader, the model's
  \<^verbatim>\<open>mean_model\<close> (a method of the host framework's base class) and the draw of
  standard-normal samples of a given length.
\<close>

record host =
  getenv_APPS :: "string option"
  listdir :: "string \<Rightarrow> error + string list"
  load_filters :: "string list \<Rightarrow> string \<Rightarrow> error + filterband list"
  mean_model :: "sed_model \<Rightarrow> obs_in \<Rightarrow> sps_config \<Rightarrow> error + (real list list \<times> real list \<times> real list)"
  random_normal :: "nat \<Rightarrow> real list"

text \<open>The returned dictionary: the three keys of the skeleton and the mock data.\<close>

record observation = obs_in +
  maggies :: "real list"
  maggies_unc :: "real list"
  mock_snr :: snr_arg
  phot_mask :: "bool list"
  true_spectrum :: "real list list"
  true_maggies :: "real list"
  mock_params :: "string \<rightharpoonup> pyval list"

text \<open>\<^verbatim>\<open>s.split(c)[0]\<close> and the substring test \<^verbatim>\<open>p in s\<close>.\<close>

definition split_head :: "char \<Rightarrow> string \<Rightarrow> string" where
  "split_head c s = takeWhile (\<lambda>x. x \<noteq> c) s"

fun is_substring :: "string \<Rightarrow> string \<Rightarrow> bool" where
  "is_substring p [] = (p = [])"
| "is_substring p (x # xs) = (take (length p) (x # xs) = p \<or> is_substring p xs)"

definition fname_hst :: "string list" where
  "fname_hst = [''f435w'', ''f606w'', ''f775w'', ''f850lp'', ''f125w'', ''f140w'', ''f160w'']"

text \<open>\<^verbatim>\<open>phot / snr\<close>.\<close>

definition divide_snr :: "real list \<Rightarrow> snr_arg \<Rightarrow> error + real list" where
  "divide_snr phot snr =
     (case snr of
        SnrScalar s \<Rightarrow> err_all (map (\<lambda>p. np_div p s) phot)
      | SnrVector v \<Rightarrow> np_divide phot v)"

text \<open>
  The first block of \<^verbatim>\<open>load_obs\<close>: the filter names found in the directory, the
  component tags, and the filters loaded for the assembled name list. The
  space-telescope filters are listed twice, the remaining ones once.
\<close>

definition discover_filters :: "host \<Rightarrow> error + (filterband list \<times> int list)" where
  "discover_filters h =
     (case getenv_APPS h of
        None \<Rightarrow> Inl TypeError
      | Some apps \<Rightarrow>
          let filter_folder = apps @ ''/spatialsed/filters/'' in
          err_bind (listdir h filter_folder) (\<lambda>fname_all.
          let fname_goodsn = map (split_head CHR ''.'') (filter (is_substring ''goodsn'') fname_all);
              n_hst = length fname_hst;
              n_blended = int (length fname_goodsn) - int n_hst
          in if n_blended < 0 then Inl ValueError
          else
          let component = replicate n_hst 0 @ replicate n_hst 1 @ replicate (nat n_blended) (- 1);
              fname_ground = filter (\<lambda>s. split_head CHR ''_'' s \<notin> set fname_hst) fname_goodsn;
              hst_names = map (\<lambda>f. f @ ''_goodsn'') fname_hst;
              fnames = hst_names @ hst_names @ fname_ground
          in
          err_bind (load_filters h fnames filter_folder) (\<lambda>filters.
          Inr (filters, component))))"

text \<open>
  The noise block: \<open>pnoise_sigma = phot / snr\<close>, and \<open>maggies\<close> either with a noise
  realization added or as a copy of \<open>phot\<close>. The result is the pair
  \<open>(maggies, pnoise_sigma)\<close>.
\<close>

definition mock_noise :: "host \<Rightarrow> snr_arg \<Rightarrow> bool \<Rightarrow> real list \<Rightarrow> error + (real list \<times> real list)" where
  "mock_noise h snr add_noise phot =
     err_bind (divide_snr phot snr) (\<lambda>pnoise_sigma.
     err_bind (if add_noise
               then err_bind (np_multiply (random_normal h (length phot)) pnoise_sigma) (\<lambda>pnoise.
                      np_add phot pnoise)
               else Inr phot) (\<lambda>maggies_val.
     Inr (maggies_val, pnoise_sigma)))"

text \<open>
  \<^verbatim>\<open>load_obs(snr=10.0, add_noise=True, **kwargs)\<close>. The module-level catalog is passed
  in and returned, since the call of \<^verbatim>\<open>load_model\<close> writes to it. The keyword
  arguments that name a key of the model's parameter mapping are staged and written to
  that mapping before \<^verbatim>\<open>mean_model\<close> is called.
\<close>

definition load_obs ::
  "host \<Rightarrow> snr_arg \<Rightarrow> bool \<Rightarrow> kwargs \<Rightarrow> param_spec list
     \<Rightarrow> error + (observation \<times> param_spec list)" where
  "load_obs h snr add_noise kw cat =
     err_bind (discover_filters h) (\<lambda>(filters, component).
     let sps = load_sps kw in
     err_bind (load_model (kw_get kw ''zred'' (PyFloat 0.0)) cat) (\<lambda>(cat', mod0).
     let obs = \<lparr>obs_wavelength = None, obs_filters = Some filters,
                obs_component = Some (CompArray component), normalization_guess = None\<rparr>;
         staged = filter (\<lambda>p. has_key (mparams mod0 p) \<and> has_key (kw p)) (map name cat');
         mod1 = mod0\<lparr>mparams := fold (\<lambda>p m. m(p \<mapsto> atleast_1d (the (kw p)))) staged (mparams mod0)\<rparr>
     in
     err_bind (mean_model h mod1 obs sps) (\<lambda>(spec, phot, extras).
     err_bind (mock_noise h snr add_noise phot) (\<lambda>(maggies_val, pnoise_sigma).
     Inr (\<lparr>obs_wavelength = None, obs_filters = Some filters,
           obs_component = Some (CompArray component), normalization_guess = None,
           maggies = maggies_val,
           maggies_unc = pnoise_sigma,
           mock_snr = snr,
           phot_mask = replicate (length phot) True,
           true_spectrum = spec,
           true_maggies = phot,
           mock_params = mparams mod1\<rparr>, cat')))))"

section \<open>Concrete inputs\<close>

text \<open>
  A two-component configuration used to evaluate the definitions: an engine whose two
  components differ, two filters of which one is listed twice, and the masses of
  \<^verbatim>\<open>run_params\<close> at redshift zero.
\<close>

definition demo_engine :: "nat \<Rightarrow> error + ssp_out" where
  "demo_engine i = Inr \<lparr>ssp_wave = [1000, 2000, 4000], ssp_spec = [1 + real i, 2, 3], stellar_mass = 1 / 2\<rparr>"

definition demo_ab_mag :: "filterband \<Rightarrow> real list \<Rightarrow> real list \<Rightarrow> error + real" where
  "demo_ab_mag f wa flux = Inr (wave_effective f)"

definition demo_distance :: "real \<Rightarrow> error + real" where
  "demo_distance z = Inr (6700 * z)"

definition demo_ext :: externals where
  "demo_ext =
     \<lparr>ssp_engine = demo_engine, ab_mag = demo_ab_mag, luminosity_distance = demo_distance,
      lightspeed = 2998 * 10 ^ 15, jansky_cgs = 1 / 10 ^ 23, to_cgs = 32143 / 10 ^ 11\<rparr>"

definition filter_A :: filterband where
  "filter_A = \<lparr>filt_name = ''f435w_goodsn'', wave_effective = 0, transmission = [(1000, 1)]\<rparr>"

definition filter_B :: filterband where
  "filter_B = \<lparr>filt_name = ''f160w_goodsn'', wave_effective = - 2.5, transmission = [(4000, 1)]\<rparr>"

definition demo_filters :: "filterband list" where
  "demo_filters = [filter_A, filter_B, filter_A]"

definition demo_params :: params where
  "demo_params =
     \<lparr>mass = Some [40000000000, 10000000000], mass_units = None, zred = Some 0,
      lumdist = None, wavecal_coeffs = None\<rparr>"

text \<open>
  A filter directory with the seven space-telescope filters and two ground-based ones,
  a loader that returns one filter per name, and a \<^verbatim>\<open>mean_model\<close> that returns a
  fixed spectrum and one photometric point per filter.
\<close>

definition demo_listdir :: "string \<Rightarrow> error + string list" where
  "demo_listdir d =
     Inr [''f435w_goodsn.par'', ''f606w_goodsn.par'', ''f775w_goodsn.par'',
          ''f850lp_goodsn.par'', ''f125w_goodsn.par'', ''f140w_goodsn.par'',
          ''f160w_goodsn.par'', ''u_goodsn.par'', ''k_goodsn.par'', ''README'']"

definition demo_load_filters :: "string list \<Rightarrow> string \<Rightarrow> error + filterband list" where
  "demo_load_filters names d =
     Inr (map (\<lambda>n. \<lparr>filt_name = n, wave_effective = 0, transmission = []\<rparr>) names)"

definition demo_mean_model ::
  "sed_model \<Rightarrow> obs_in \<Rightarrow> sps_config \<Rightarrow> error + (real list list \<times> real list \<times> real list)" where
  "demo_mean_model m obs sps =
     Inr ([[1, 2], [3, 4], [4, 6]],
          map (\<lambda>f. 20) (case obs_filters obs of None \<Rightarrow> [] | Some fs \<Rightarrow> fs),
          [1 / 2, 1 / 2, 1 / 2])"

definition demo_host :: host where
  "demo_host =
     \<lparr>getenv_APPS = Some ''/apps'', listdir = demo_listdir, load_filters = demo_load_filters,
      mean_model = demo_mean_model, random_normal = (\<lambda>n. replicate n (3 / 2))\<rparr>"

definition demo_kwargs :: kwargs where
  "demo_kwargs = [''zred'' \<mapsto> PyFloat 1, ''mass'' \<mapsto> PyArray [40000000000, 10000000000]]"

text \<open>A signal-to-noise vector with one entry per filter of that directory.\<close>

definition demo_snr_vector :: "real list" where
  "demo_snr_vector = [10, 20, 10, 20, 10, 20, 10, 20, 10, 20, 10, 20, 10, 20, 5, 40]"

section \<open>Verified properties\<close>

subsection \<open>The parameter catalog and the model factory\<close>

text \<open>
  Claim C1 (as amended). The catalog \<open>model_params\<close> has 18 entries, not 17; their
  names, multiplicities \<open>N\<close> and free/fixed flags, in catalog order, are the eighteen
  enumerated in the parameter table.
\<close>

theorem model_params_entries:
  "map (\<lambda>p. (name p, N p, isfree p)) model_params =
     [(''zred'', 1, False), (''sfh'', 1, False), (''mass'', 2, True),
      (''logzsol'', 2, True), (''pmetals'', 1, False), (''tau'', 2, True),
      (''tage'', 2, True), (''dust2'', 2, True), (''dust_index'', 1, False),
      (''dust1_index'', 1, False), (''dust_type'', 1, False),
      (''add_dust_emission'', 1, False), (''duste_umin'', 1, False),
      (''duste_qpah'', 1, False), (''add_neb_emission'', 1, False),
      (''gas_logz'', 1, False), (''gas_logu'', 1, False),
      (''phot_jitter'', 1, False)]
   \<and> length model_params = 18"
  by (simp add: model_params_def)

text \<open>
  Claim C1 as stated fails: the catalog does not have exactly 17 entries.
\<close>

theorem model_params_not_17: "length model_params \<noteq> 17"
  by (simp add: model_params_def)

text \<open>
  Claim C9. The free parameters of the catalog are, in catalog order, mass, logzsol,
  tau, tage and dust2, each with multiplicity 2, and the Theta vector built from them
  has length 10.
\<close>

theorem free_parameters_theta:
  "map (\<lambda>p. (name p, N p)) (filter isfree model_params) =
     [(''mass'', 2), (''logzsol'', 2), (''tau'', 2), (''tage'', 2), (''dust2'', 2)]
   \<and> length (theta model_params) = 10"
  by (simp add: model_params_def theta_def)

lemma index_of_Some:
  "index_of xs y = Some i \<Longrightarrow> i < length xs \<and> xs ! i = y \<and> (\<forall>j<i. xs ! j \<noteq> y)"
proof (induction xs arbitrary: i)
  case Nil
  then show ?case by simp
next
  case (Cons x xs)
  show ?case
  proof (cases "x = y")
    case True
    with Cons.prems show ?thesis by simp
  next
    case False
    with Cons.prems obtain k where k: "index_of xs y = Some k" "i = Suc k"
      by auto
    from Cons.IH [OF k(1)] False k(2) show ?thesis
      by (auto simp: nth_Cons split: nat.splits)
  qed
qed

lemma index_of_None: "index_of xs y = None \<longleftrightarrow> y \<notin> set xs"
  by (induction xs) auto

lemma find_first_index:
  "i < length xs \<Longrightarrow> P (xs ! i) \<Longrightarrow> (\<forall>j<i. \<not> P (xs ! j)) \<Longrightarrow> find P xs = Some (xs ! i)"
proof (induction xs arbitrary: i)
  case Nil
  then show ?case by simp
next
  case (Cons x xs)
  show ?case
  proof (cases i)
    case 0
    with Cons.prems show ?thesis by simp
  next
    case (Suc k)
    with Cons.prems have "\<not> P x" by auto
    moreover have "find P xs = Some (xs ! k)"
      using Cons.prems Suc by (intro Cons.IH) auto
    ultimately show ?thesis using Suc by simp
  qed
qed

lemma load_model_Inr:
  assumes "index_of (map name cat) ''zred'' = Some i"
  shows "load_model z cat = Inr (cat[i := (cat ! i)\<lparr>init := z\<rparr>], SpatialSedModel (cat[i := (cat ! i)\<lparr>init := z\<rparr>]))"
  using assms by (simp add: load_model_def Let_def)

lemma index_of_update_init:
  assumes "index_of (map name cat) n = Some i"
  shows "index_of (map name (cat[i := (cat ! i)\<lparr>init := z\<rparr>])) n = Some i"
proof -
  have "map name (cat[i := (cat ! i)\<lparr>init := z\<rparr>]) = map name cat"
    by (cases "i < length cat") (auto simp: nth_list_update intro!: nth_equalityI)
  then show ?thesis using assms by simp
qed

text \<open>
  Claim C6. Starting from any catalog with a zred entry, two successive calls of
  \<open>load_model\<close> both return; after the second call the zred entry holds the second
  redshift as its \<open>init\<close> (after the first call it held the first), and the catalog
  differs from the original one only in the \<open>init\<close> field of that entry. The second
  model is built over that catalog.
\<close>

theorem load_model_twice:
  assumes "''zred'' \<in> set (map name cat)"
  shows "\<exists>i cat1 m1 cat2 m2.
           index_of (map name cat) ''zred'' = Some i
         \<and> load_model z1 cat = Inr (cat1, m1)
         \<and> load_model z2 cat1 = Inr (cat2, m2)
         \<and> map_option init (entry_named cat1 ''zred'') = Some z1
         \<and> map_option init (entry_named cat2 ''zred'') = Some z2
         \<and> cat2 = cat[i := (cat ! i)\<lparr>init := z2\<rparr>]
         \<and> config_list m2 = cat2"
proof -
  from assms obtain i where i: "index_of (map name cat) ''zred'' = Some i"
    using index_of_None [of "map name cat" "''zred''"] by (cases "index_of (map name cat) ''zred''") auto
  define cat1 where "cat1 = cat[i := (cat ! i)\<lparr>init := z1\<rparr>]"
  define cat2 where "cat2 = cat1[i := (cat1 ! i)\<lparr>init := z2\<rparr>]"
  from index_of_Some [OF i] have il: "i < length cat" and ni: "name (cat ! i) = ''zred''"
    and first: "\<forall>j<i. name (cat ! j) \<noteq> ''zred''"
    by auto
  have l1: "load_model z1 cat = Inr (cat1, SpatialSedModel cat1)"
    unfolding cat1_def by (rule load_model_Inr [OF i])
  have i1: "index_of (map name cat1) ''zred'' = Some i"
    unfolding cat1_def by (rule index_of_update_init [OF i])
  have l2: "load_model z2 cat1 = Inr (cat2, SpatialSedModel cat2)"
    unfolding cat2_def by (rule load_model_Inr [OF i1])
  have c2: "cat2 = cat[i := (cat ! i)\<lparr>init := z2\<rparr>]"
    using il by (simp add: cat2_def cat1_def)
  have e1: "entry_named cat1 ''zred'' = Some (cat1 ! i)"
    unfolding entry_named_def
    using il ni first by (intro find_first_index) (auto simp: cat1_def nth_list_update)
  have e2: "entry_named cat2 ''zred'' = Some (cat2 ! i)"
    unfolding entry_named_def
    using il ni first by (intro find_first_index) (auto simp: c2 nth_list_update)
  have "map_option init (entry_named cat1 ''zred'') = Some z1"
    using e1 il by (simp add: cat1_def)
  moreover have "map_option init (entry_named cat2 ''zred'') = Some z2"
    using e2 il by (simp add: c2)
  ultimately show ?thesis
    using i l1 l2 c2 by (auto simp: SpatialSedModel_def)
qed

text \<open>
  The hypothesis of C6 holds for the module's own catalog, where zred is entry 0.
\<close>

theorem load_model_twice_witness:
  "''zred'' \<in> set (map name model_params)
   \<and> (\<exists>cat1 m1 cat2 m2.
         load_model (PyFloat 1) model_params = Inr (cat1, m1)
       \<and> load_model (PyFloat 2) cat1 = Inr (cat2, m2)
       \<and> map_option init (entry_named cat2 ''zred'') = Some (PyFloat 2)
       \<and> cat2 = model_params[0 := (model_params ! 0)\<lparr>init := PyFloat 2\<rparr>])"
proof -
  have h: "''zred'' \<in> set (map name model_params)"
    by (simp add: model_params_def)
  have i0: "index_of (map name model_params) ''zred'' = Some 0"
    by (simp add: model_params_def)
  from load_model_twice [OF h, of "PyFloat 1" "PyFloat 2"] i0 h show ?thesis
    by auto
qed

subsection \<open>The source without filters and with a wavelength calibration\<close>

lemma err_bind_Inr_iff: "err_bind m f = Inr r \<longleftrightarrow> (\<exists>v. m = Inr v \<and> f v = Inr r)"
  by (cases m) (simp_all add: err_bind_def)

lemma err_bind_simps [simp]:
  "err_bind (Inl e) f = Inl e" "err_bind (Inr v) f = f v"
  by (simp_all add: err_bind_def)

lemma err_all_map_Inr: "err_all (map Inr vs) = Inr vs"
  by (induction vs) simp_all

lemma err_all_Inr_iff:
  "err_all ms = Inr vs \<longleftrightarrow> ms = map Inr vs"
proof
  show "err_all ms = Inr vs \<Longrightarrow> ms = map Inr vs"
  proof (induction ms arbitrary: vs)
    case Nil
    then show ?case by auto
  next
    case (Cons m ms)
    then show ?case
      by (auto split: sum.splits)
  qed
next
  show "ms = map Inr vs \<Longrightarrow> err_all ms = Inr vs"
    by (simp add: err_all_map_Inr)
qed

lemma photometry_without_filters:
  "observed_frame_photometry ext wa sa None = Inr (Phot0 0, None)"
  by (simp add: observed_frame_photometry_def)

lemma demo_galaxy_spectrum:
  "get_galaxy_spectrum demo_ext demo_params =
     Inr ([1000, 2000, 4000], Flux2 [[1, 2, 3], [2, 2, 3], [6 / 5, 2, 3]], [1 / 2, 1 / 2, 1 / 2])"
  by (simp add: get_galaxy_spectrum_def demo_ext_def demo_params_def demo_engine_def
      mass_units_is_mstar_def np_array_def np_dot_def np_dot1_def np_div_def squeeze_def Let_def)

lemma demo_observed_frame:
  "observed_frame demo_ext demo_params =
     Inr ([1000, 2000, 4000], Flux2 [[1, 2, 3], [2, 2, 3], [6 / 5, 2, 3]], [1 / 2, 1 / 2, 1 / 2])"
  unfolding observed_frame_def demo_galaxy_spectrum
  by (simp add: demo_params_def wavelength_solution_def observed_wave_def scale_spec_def)

lemma dim_and_normalize_unbound:
  "dim_and_normalize ext ps component sa phot None mfrac \<noteq> Inr r"
  by (auto simp: dim_and_normalize_def err_bind_Inr_iff Let_def)

text \<open>
  Claim C2. With \<^verbatim>\<open>filters=None\<close> the source sets \<open>phot = 0.0\<close> but leaves
  \<^verbatim>\<open>filter_ind\<close> unbound, and the final indexing
  \<^verbatim>\<open>(phot * mass[:, None])[component, filter_ind]\<close> reads it: on the two-component
  input the call raises \<^verbatim>\<open>UnboundLocalError\<close>, and for no externals, component
  selector and parameters does a call without filters return a triple.
\<close>

theorem get_spectrum_without_filters:
  "get_spectrum demo_ext None (CompScalar (- 1)) demo_params = Inl (UnboundLocalError ''filter_ind'')
   \<and> get_spectrum ext None component ps \<noteq> Inr r"
proof
  show "get_spectrum demo_ext None (CompScalar (- 1)) demo_params = Inl (UnboundLocalError ''filter_ind'')"
    unfolding get_spectrum_def demo_observed_frame
    by (simp add: demo_ext_def demo_params_def np_div_def photometry_without_filters
      dim_and_normalize_def distance_factor_def phot_div_def spec_times_mass_def
      phot_times_mass_def times_column_def scale_spec_def Let_def)
  show "get_spectrum ext None component ps \<noteq> Inr r"
    by (auto simp: get_spectrum_def err_bind_Inr_iff photometry_without_filters
        dim_and_normalize_unbound split: prod.splits)
qed

lemma chebval_unbound: "lookup_global ''chebval'' = Inl (NameError ''chebval'')"
  by (simp add: lookup_global_def module_names_def)

lemma wavelength_solution_never_returns:
  "wavecal_coeffs ps = Some c \<Longrightarrow> wavelength_solution ext ps wave \<noteq> Inr b"
  by (auto simp: wavelength_solution_def chebval_unbound err_bind_Inr_iff Let_def)

lemma observed_frame_never_returns:
  "wavecal_coeffs ps = Some c \<Longrightarrow> observed_frame ext ps \<noteq> Inr v"
  using wavelength_solution_never_returns [of ps c ext]
  by (auto simp: observed_frame_def err_bind_Inr_iff Let_def split: prod.splits)

text \<open>
  Claim C3. When \<^verbatim>\<open>'wavecal_coeffs'\<close> is a key of the parameters, the branch reads
  the name \<^verbatim>\<open>chebval\<close>, which the module never binds: on the two-component input the
  call raises \<^verbatim>\<open>NameError\<close>, and no call with that key returns a triple.
\<close>

theorem get_spectrum_wavecal:
  "get_spectrum demo_ext (Some demo_filters) (CompScalar (- 1)) (demo_params\<lparr>wavecal_coeffs := Some [1, 2]\<rparr>)
     = Inl (NameError ''chebval'')
   \<and> get_spectrum ext filters component (ps\<lparr>wavecal_coeffs := Some c\<rparr>) \<noteq> Inr r"
proof
  have g: "get_galaxy_spectrum demo_ext (demo_params\<lparr>wavecal_coeffs := Some [1, 2]\<rparr>) =
     Inr ([1000, 2000, 4000], Flux2 [[1, 2, 3], [2, 2, 3], [6 / 5, 2, 3]], [1 / 2, 1 / 2, 1 / 2])"
    by (simp add: get_galaxy_spectrum_def demo_ext_def demo_params_def demo_engine_def
      mass_units_is_mstar_def np_array_def np_dot_def np_dot1_def np_div_def squeeze_def Let_def)
  show "get_spectrum demo_ext (Some demo_filters) (CompScalar (- 1)) (demo_params\<lparr>wavecal_coeffs := Some [1, 2]\<rparr>)
     = Inl (NameError ''chebval'')"
    unfolding get_spectrum_def observed_frame_def g
    by (simp add: wavelength_solution_def chebval_unbound demo_params_def np_div_def Let_def)
  show "get_spectrum ext filters component (ps\<lparr>wavecal_coeffs := Some c\<rparr>) \<noteq> Inr r"
    using observed_frame_never_returns [of "ps\<lparr>wavecal_coeffs := Some c\<rparr>" c ext]
    by (auto simp: get_spectrum_def err_bind_Inr_iff)
qed

subsection \<open>The flux clamp\<close>

lemma np_min_eq_Min: "xs \<noteq> [] \<Longrightarrow> np_min xs = Inr (Min (set xs))"
proof (cases xs)
  case Nil
  assume "xs \<noteq> []"
  with Nil show ?thesis by simp
next
  case (Cons a list)
  show ?thesis
    unfolding Cons np_min.simps Min.set_eq_fold ..
qed

lemma tiny_of_positive:
  assumes "\<exists>v\<in>set (concat spec). 0 < v"
  shows "tiny_of spec = Inr (1 / real (length spec) * Min {v \<in> set (concat spec). 0 < v})"
proof -
  from assms have ne: "filter (\<lambda>v. 0 < v) (concat spec) \<noteq> []"
    by (auto simp: filter_empty_conv)
  from assms have "spec \<noteq> []" by auto
  moreover have "set (filter (\<lambda>v. 0 < v) (concat spec)) = {v \<in> set (concat spec). 0 < v}"
    by auto
  ultimately show ?thesis
    using np_min_eq_Min [OF ne] by (simp add: tiny_of_def)
qed

lemma tiny_of_nonpositive:
  assumes "\<forall>v\<in>set (concat spec). v \<le> 0"
  shows "\<exists>e. tiny_of spec = Inl e"
proof -
  from assms have "filter (\<lambda>v. 0 < v) (concat spec) = []"
    by (auto simp: filter_empty_conv not_less)
  then show ?thesis
    by (simp add: tiny_of_def)
qed

text \<open>
  Claim C5. If the spectrum has a positive entry, then after the clamp every entry is at
  least \<open>tiny = (1/len(spec)) * min\<close> of the positive entries (and the clamp is exactly
  the entrywise maximum with \<open>tiny\<close>); if no entry is positive, the clamp returns the
  spectrum unchanged. \<open>clamp_flux\<close> is a total function: the \<^verbatim>\<open>try\<close> statement never
  raises.
\<close>

theorem clamp_flux_floor:
  "((\<exists>v\<in>set (concat spec). 0 < v) \<longrightarrow>
      (\<forall>x\<in>set (concat (clamp_flux spec)).
          1 / real (length spec) * Min {v \<in> set (concat spec). 0 < v} \<le> x)
    \<and> clamp_flux spec =
        map (map (max (1 / real (length spec) * Min {v \<in> set (concat spec). 0 < v}))) spec)
   \<and> ((\<forall>v\<in>set (concat spec). v \<le> 0) \<longrightarrow> clamp_flux spec = spec)"
proof (intro conjI impI)
  assume pos: "\<exists>v\<in>set (concat spec). 0 < v"
  define tiny where "tiny = 1 / real (length spec) * Min {v \<in> set (concat spec). 0 < v}"
  have c: "clamp_flux spec = map (map (\<lambda>v. if v < tiny then tiny else v)) spec"
    using tiny_of_positive [OF pos] by (simp add: clamp_flux_def tiny_def)
  have m: "(\<lambda>v. if v < tiny then tiny else v) = max tiny"
    by (auto simp: max_def)
  show "clamp_flux spec = map (map (max tiny)) spec"
    by (simp add: c m)
  show "\<forall>x\<in>set (concat (clamp_flux spec)). tiny \<le> x"
    by (auto simp: c)
next
  assume "\<forall>v\<in>set (concat spec). v \<le> 0"
  from tiny_of_nonpositive [OF this] show "clamp_flux spec = spec"
    by (auto simp: clamp_flux_def)
qed

text \<open>
  Both hypotheses of C5 at concrete spectra: one with positive entries, where
  \<open>tiny = 1/2 * 1/10\<close>, and one without.
\<close>

theorem clamp_flux_floor_witness:
  "list_ex (\<lambda>v. 0 < v) (concat [[1, - 2, 0], [3, 1 / 10, 6 :: real]])
   \<and> list_all (\<lambda>x. 1 / 20 \<le> x) (concat (clamp_flux [[1, - 2, 0], [3, 1 / 10, 6]]))
   \<and> clamp_flux [[1, - 2, 0], [3, 1 / 10, 6]] = [[1, 1 / 20, 1 / 20], [3, 1 / 10, 6]]
   \<and> list_all (\<lambda>v. v \<le> 0) (concat [[- 1, - 2, 0], [0, 0, - 6 :: real]])
   \<and> clamp_flux [[- 1, - 2, 0], [0, 0, - 6]] = [[- 1, - 2, 0], [0, 0, - 6]]"
proof -
  have p: "{v \<in> set (concat [[1, - 2, 0], [3, 1 / 10, 6 :: real]]). 0 < v} = {1, 3, 1 / 10, 6}"
    by auto
  have h1: "\<exists>v\<in>set (concat [[1, - 2, 0], [3, 1 / 10, 6 :: real]]). 0 < v"
    by simp
  have h2: "\<forall>v\<in>set (concat [[- 1, - 2, 0], [0, 0, - 6 :: real]]). v \<le> 0"
    by simp
  from clamp_flux_floor [of "[[1, - 2, 0], [3, 1 / 10, 6]]"] h1
  have a: "clamp_flux [[1, - 2, 0], [3, 1 / 10, 6]] = [[1, 1 / 20, 1 / 20], [3, 1 / 10, 6]]"
    unfolding p by simp
  from clamp_flux_floor [of "[[- 1, - 2, 0], [0, 0, - 6]]"] h2
  have b: "clamp_flux [[- 1, - 2, 0], [0, 0, - 6]] = [[- 1, - 2, 0], [0, 0, - 6]]"
    by blast
  show ?thesis
    unfolding a b by simp
qed

text \<open>
  Where the clamp sits in \<open>sed\<close>: the returned spectrum is the source's spectrum,
  multiplied by the normalization guess, clamped, with the sky term added; photometry
  and extras are the source's.
\<close>

lemma sed_clamps:
  assumes "sed ext set_parameters sky theta_vec obs = Inr (spec, phot, extras)"
  shows "\<exists>spec0. get_spectrum ext (obs_filters obs)
                  (case obs_component obs of None \<Rightarrow> CompScalar (- 1) | Some c \<Rightarrow> c)
                  (set_parameters theta_vec) = Inr (spec0, phot, extras)
          \<and> spec = map (map (\<lambda>v. v + sky))
                   (clamp_flux (map (map (\<lambda>v. v * (case normalization_guess obs of None \<Rightarrow> 1.0 | Some g \<Rightarrow> g))) spec0))"
  using assms by (auto simp: sed_def err_bind_Inr_iff Let_def)

subsection \<open>The mock observation\<close>

lemma mock_noise_off: "mock_noise h snr False phot = Inr (mg, sigma) \<Longrightarrow> mg = phot"
  by (auto simp: mock_noise_def err_bind_Inr_iff)

lemma mock_noise_sigma:
  "mock_noise h snr add_noise phot = Inr (mg, sigma) \<Longrightarrow> divide_snr phot snr = Inr sigma"
  by (auto simp: mock_noise_def err_bind_Inr_iff)

lemma load_obs_Inr:
  assumes "load_obs h snr add_noise kw cat = Inr (obs, cat')"
  shows "mock_noise h snr add_noise (true_maggies obs) = Inr (maggies obs, maggies_unc obs)"
  using assms
  by (auto simp: load_obs_def err_bind_Inr_iff Let_def split: prod.splits)

text \<open>
  Claim C4. Whenever \<open>load_obs\<close> returns with \<^verbatim>\<open>add_noise=False\<close>, the returned
  \<open>maggies\<close> equal the returned \<open>true_maggies\<close>.
\<close>

theorem load_obs_without_noise:
  assumes "load_obs h snr False kw cat = Inr (obs, cat')"
  shows "maggies obs = true_maggies obs"
  using load_obs_Inr [OF assms] by (auto dest: mock_noise_off)

lemma load_obs_unc:
  assumes "load_obs h snr add_noise kw cat = Inr (obs, cat')"
  shows "divide_snr (true_maggies obs) snr = Inr (maggies_unc obs)"
  using load_obs_Inr [OF assms] by (auto dest: mock_noise_sigma)

lemma discover_filters_random:
  "discover_filters (h\<lparr>random_normal := rn\<rparr>) = discover_filters h"
  by (simp add: discover_filters_def Let_def cong: if_cong split: option.splits)

lemma load_obs_same_truth:
  assumes "load_obs h snr add_noise kw cat = Inr (obs, cat')"
    and "load_obs (h\<lparr>random_normal := rn\<rparr>) snr noise2 kw cat = Inr (obs2, cat2)"
  shows "true_maggies obs2 = true_maggies obs"
  using assms
  by (auto simp: load_obs_def discover_filters_random err_bind_Inr_iff Let_def split: prod.splits)

lemma divide_snr_scalar:
  assumes "divide_snr phot (SnrScalar s) = Inr us"
  shows "us = map (\<lambda>p. p / s) phot"
proof -
  from assms have "map (\<lambda>p. np_div p s) phot = map Inr us"
    by (simp add: divide_snr_def err_all_Inr_iff)
  then show ?thesis
    by (induction phot arbitrary: us) (auto simp: np_div_def split: if_splits)
qed

lemma np_divide_same_length:
  assumes "np_divide xs ys = Inr us" and "length xs = length ys"
  shows "us = map2 (\<lambda>p s. p / s) xs ys"
proof -
  from assms have "map2 np_div xs ys = map Inr us"
    by (simp add: np_divide_def broadcast_def err_all_Inr_iff)
  with assms(2) show ?thesis
  proof (induction xs ys arbitrary: us rule: list_induct2)
    case Nil
    then show ?case by simp
  next
    case (Cons x xs y ys)
    then show ?case
      by (cases us) (auto simp: np_div_def split: if_splits)
  qed
qed

lemma np_divide_single_divisor:
  assumes "np_divide xs [y] = Inr us"
  shows "us = map (\<lambda>p. p / y) xs"
proof (cases "length xs = 1")
  case True
  then obtain x where "xs = [x]" by (cases xs) auto
  with np_divide_same_length [OF assms] show ?thesis by simp
next
  case False
  with assms have "map (\<lambda>p. np_div p y) xs = map Inr us"
    by (simp add: np_divide_def broadcast_def err_all_Inr_iff)
  then show ?thesis
    by (induction xs arbitrary: us) (auto simp: np_div_def split: if_splits)
qed

lemma np_divide_single_dividend:
  assumes "np_divide [x] ys = Inr us"
  shows "us = map (\<lambda>s. x / s) ys"
proof (cases "length ys = 1")
  case True
  then obtain y where "ys = [y]" by (cases ys) auto
  with np_divide_same_length [OF assms] show ?thesis by simp
next
  case False
  with assms have "map (np_div x) ys = map Inr us"
    by (simp add: np_divide_def broadcast_def err_all_Inr_iff)
  then show ?thesis
    by (induction ys arbitrary: us) (auto simp: np_div_def split: if_splits)
qed

text \<open>
  Claim C10. Whenever \<open>load_obs\<close> returns, \<open>maggies_unc\<close> is \<open>true_maggies / snr\<close>:
  entry by entry divided by the scalar \<open>snr\<close>; for a vector \<open>snr\<close> of the length of
  the photometry, entry \<open>i\<close> divided by \<open>snr[i]\<close>; and, where numpy broadcasts, every
  entry divided by the single \<open>snr\<close> entry or the single photometric point divided by
  every \<open>snr\<close> entry. A second call that differs only in the noise flag and in the
  random draws returns the same \<open>true_maggies\<close> and the same \<open>maggies_unc\<close>.
\<close>

theorem maggies_unc_from_true_maggies:
  assumes "load_obs h snr add_noise kw cat = Inr (obs, cat')"
  shows "divide_snr (true_maggies obs) snr = Inr (maggies_unc obs)
       \<and> (\<forall>s. snr = SnrScalar s \<longrightarrow> maggies_unc obs = map (\<lambda>p. p / s) (true_maggies obs))
       \<and> (\<forall>v. snr = SnrVector v \<and> length v = length (true_maggies obs)
              \<longrightarrow> maggies_unc obs = map2 (\<lambda>p s. p / s) (true_maggies obs) v)
       \<and> (\<forall>s. snr = SnrVector [s]
              \<longrightarrow> maggies_unc obs = map (\<lambda>p. p / s) (true_maggies obs))
       \<and> (\<forall>v p. snr = SnrVector v \<and> true_maggies obs = [p]
              \<longrightarrow> maggies_unc obs = map (\<lambda>s. p / s) v)
       \<and> (\<forall>rn noise2 obs2 cat2.
            load_obs (h\<lparr>random_normal := rn\<rparr>) snr noise2 kw cat = Inr (obs2, cat2)
            \<longrightarrow> true_maggies obs2 = true_maggies obs \<and> maggies_unc obs2 = maggies_unc obs)"
proof (intro conjI allI impI)
  show d: "divide_snr (true_maggies obs) snr = Inr (maggies_unc obs)"
    by (rule load_obs_unc [OF assms])
  show "maggies_unc obs = map (\<lambda>p. p / s) (true_maggies obs)" if "snr = SnrScalar s" for s
    using d that by (simp add: divide_snr_scalar)
  show "maggies_unc obs = map2 (\<lambda>p s. p / s) (true_maggies obs) v"
    if "snr = SnrVector v \<and> length v = length (true_maggies obs)" for v
    using d that by (intro np_divide_same_length) (simp_all add: divide_snr_def)
  show "maggies_unc obs = map (\<lambda>p. p / s) (true_maggies obs)" if "snr = SnrVector [s]" for s
    using d that by (intro np_divide_single_divisor) (simp add: divide_snr_def)
  show "maggies_unc obs = map (\<lambda>s. p / s) v"
    if "snr = SnrVector v \<and> true_maggies obs = [p]" for v p
    using d that by (intro np_divide_single_dividend) (simp add: divide_snr_def)
  fix rn noise2 obs2 cat2
  assume l2: "load_obs (h\<lparr>random_normal := rn\<rparr>) snr noise2 kw cat = Inr (obs2, cat2)"
  show t: "true_maggies obs2 = true_maggies obs"
    by (rule load_obs_same_truth [OF assms l2])
  from load_obs_unc [OF l2] d t show "maggies_unc obs2 = maggies_unc obs"
    by simp
qed

lemma demo_discover_filters:
  "discover_filters demo_host =
     Inr (map (\<lambda>n. \<lparr>filt_name = n, wave_effective = 0, transmission = []\<rparr>)
            [''f435w_goodsn'', ''f606w_goodsn'', ''f775w_goodsn'', ''f850lp_goodsn'',
             ''f125w_goodsn'', ''f140w_goodsn'', ''f160w_goodsn'',
             ''f435w_goodsn'', ''f606w_goodsn'', ''f775w_goodsn'', ''f850lp_goodsn'',
             ''f125w_goodsn'', ''f140w_goodsn'', ''f160w_goodsn'',
             ''u_goodsn'', ''k_goodsn''],
          [0, 0, 0, 0, 0, 0, 0, 1, 1, 1, 1, 1, 1, 1, - 1, - 1])"
  by (simp add: discover_filters_def demo_host_def demo_listdir_def demo_load_filters_def
      split_head_def fname_hst_def Let_def eval_nat_numeral)

lemma demo_load_model:
  "\<exists>c m. load_model (kw_get demo_kwargs ''zred'' (PyFloat 0.0)) model_params = Inr (c, m)"
  by (simp add: load_model_def model_params_def Let_def)

lemma demo_mock_noise:
  "mock_noise demo_host (SnrScalar 20) add_noise [20, 20, 20, 20, 20, 20, 20, 20, 20, 20, 20, 20, 20, 20, 20, 20]
    = Inr (if add_noise
          then [43 / 2, 43 / 2, 43 / 2, 43 / 2, 43 / 2, 43 / 2, 43 / 2, 43 / 2,
                43 / 2, 43 / 2, 43 / 2, 43 / 2, 43 / 2, 43 / 2, 43 / 2, 43 / 2]
          else [20, 20, 20, 20, 20, 20, 20, 20, 20, 20, 20, 20, 20, 20, 20, 20],
          [1, 1, 1, 1, 1, 1, 1, 1, 1, 1, 1, 1, 1, 1, 1, 1])"
  by (simp add: mock_noise_def divide_snr_def np_div_def np_multiply_def np_add_def
      broadcast_def demo_host_def eval_nat_numeral)

lemma demo_load_obs:
  "\<exists>obs cat'. load_obs demo_host (SnrScalar 20) add_noise demo_kwargs model_params = Inr (obs, cat')
     \<and> true_maggies obs = [20, 20, 20, 20, 20, 20, 20, 20, 20, 20, 20, 20, 20, 20, 20, 20]
     \<and> maggies obs = (if add_noise
          then [43 / 2, 43 / 2, 43 / 2, 43 / 2, 43 / 2, 43 / 2, 43 / 2, 43 / 2,
                43 / 2, 43 / 2, 43 / 2, 43 / 2, 43 / 2, 43 / 2, 43 / 2, 43 / 2]
          else [20, 20, 20, 20, 20, 20, 20, 20, 20, 20, 20, 20, 20, 20, 20, 20])"
proof -
  obtain c m where lm: "load_model (kw_get demo_kwargs ''zred'' (PyFloat 0.0)) model_params = Inr (c, m)"
    using demo_load_model by blast
  have mm: "mean_model demo_host = demo_mean_model"
    by (simp add: demo_host_def)
  show ?thesis
    unfolding load_obs_def demo_discover_filters lm mm demo_mean_model_def
    by (simp add: Let_def demo_mock_noise)
qed

text \<open>
  The hypothesis of C4 on the concrete filter directory: the call returns, with sixteen
  photometric points.
\<close>

theorem load_obs_without_noise_witness:
  "\<exists>obs cat'. load_obs demo_host (SnrScalar 20) False demo_kwargs model_params = Inr (obs, cat')
     \<and> maggies obs = true_maggies obs
     \<and> true_maggies obs = [20, 20, 20, 20, 20, 20, 20, 20, 20, 20, 20, 20, 20, 20, 20, 20]"
proof -
  from demo_load_obs [of False] obtain obs cat'
    where l: "load_obs demo_host (SnrScalar 20) False demo_kwargs model_params = Inr (obs, cat')"
      and t: "true_maggies obs = [20, 20, 20, 20, 20, 20, 20, 20, 20, 20, 20, 20, 20, 20, 20, 20]"
    by auto
  from load_obs_without_noise [OF l] l t show ?thesis
    by blast
qed

lemma demo_mock_noise_vector:
  "mock_noise demo_host (SnrVector demo_snr_vector) False
      [20, 20, 20, 20, 20, 20, 20, 20, 20, 20, 20, 20, 20, 20, 20, 20]
    = Inr ([20, 20, 20, 20, 20, 20, 20, 20, 20, 20, 20, 20, 20, 20, 20, 20],
           [2, 1, 2, 1, 2, 1, 2, 1, 2, 1, 2, 1, 2, 1, 4, 1 / 2])"
  by (simp add: mock_noise_def divide_snr_def np_divide_def np_div_def broadcast_def
      demo_snr_vector_def)

lemma demo_load_obs_vector:
  "\<exists>obs cat'. load_obs demo_host (SnrVector demo_snr_vector) False demo_kwargs model_params
        = Inr (obs, cat')
     \<and> true_maggies obs = [20, 20, 20, 20, 20, 20, 20, 20, 20, 20, 20, 20, 20, 20, 20, 20]"
proof -
  obtain c m where lm: "load_model (kw_get demo_kwargs ''zred'' (PyFloat 0.0)) model_params = Inr (c, m)"
    using demo_load_model by blast
  have mm: "mean_model demo_host = demo_mean_model"
    by (simp add: demo_host_def)
  show ?thesis
    unfolding load_obs_def demo_discover_filters lm mm demo_mean_model_def
    by (simp add: Let_def demo_mock_noise_vector)
qed

text \<open>
  The hypotheses of C10 on the concrete filter directory: the calls with and without
  noise both return, their \<open>maggies\<close> differ, their \<open>maggies_unc\<close> agree; and with a
  vector \<open>snr\<close> of sixteen entries the uncertainty of filter \<open>i\<close> is its photometry
  divided by entry \<open>i\<close>.
\<close>

theorem maggies_unc_from_true_maggies_witness:
  "\<exists>obs cat' obs2 cat2 obs3 cat3.
       load_obs demo_host (SnrScalar 20) True demo_kwargs model_params = Inr (obs, cat')
     \<and> load_obs demo_host (SnrScalar 20) False demo_kwargs model_params = Inr (obs2, cat2)
     \<and> maggies obs \<noteq> maggies obs2
     \<and> maggies_unc obs2 = maggies_unc obs
     \<and> maggies_unc obs = map (\<lambda>p. p / 20) (true_maggies obs)
     \<and> maggies_unc obs = [1, 1, 1, 1, 1, 1, 1, 1, 1, 1, 1, 1, 1, 1, 1, 1]
     \<and> load_obs demo_host (SnrVector demo_snr_vector) False demo_kwargs model_params
           = Inr (obs3, cat3)
     \<and> length demo_snr_vector = length (true_maggies obs3)
     \<and> maggies_unc obs3 = [2, 1, 2, 1, 2, 1, 2, 1, 2, 1, 2, 1, 2, 1, 4, 1 / 2]"
proof -
  from demo_load_obs [of True] obtain obs cat'
    where l: "load_obs demo_host (SnrScalar 20) True demo_kwargs model_params = Inr (obs, cat')"
      and t: "true_maggies obs = [20, 20, 20, 20, 20, 20, 20, 20, 20, 20, 20, 20, 20, 20, 20, 20]"
      and m: "maggies obs = [43 / 2, 43 / 2, 43 / 2, 43 / 2, 43 / 2, 43 / 2, 43 / 2, 43 / 2,
                43 / 2, 43 / 2, 43 / 2, 43 / 2, 43 / 2, 43 / 2, 43 / 2, 43 / 2]"
    by auto
  from demo_load_obs [of False] obtain obs2 cat2
    where l2: "load_obs demo_host (SnrScalar 20) False demo_kwargs model_params = Inr (obs2, cat2)"
      and m2: "maggies obs2 = [20, 20, 20, 20, 20, 20, 20, 20, 20, 20, 20, 20, 20, 20, 20, 20]"
    by auto
  from demo_load_obs_vector obtain obs3 cat3
    where l3: "load_obs demo_host (SnrVector demo_snr_vector) False demo_kwargs model_params
                 = Inr (obs3, cat3)"
      and t3: "true_maggies obs3 = [20, 20, 20, 20, 20, 20, 20, 20, 20, 20, 20, 20, 20, 20, 20, 20]"
    by auto
  have same: "demo_host\<lparr>random_normal := random_normal demo_host\<rparr> = demo_host"
    by simp
  note c10 = maggies_unc_from_true_maggies [OF l]
  from c10 have sc: "maggies_unc obs = map (\<lambda>p. p / 20) (true_maggies obs)"
    by blast
  from c10 l2 same have eq: "maggies_unc obs2 = maggies_unc obs"
    by metis
  have len3: "length demo_snr_vector = length (true_maggies obs3)"
    by (simp add: t3 demo_snr_vector_def)
  from maggies_unc_from_true_maggies [OF l3] len3
  have "maggies_unc obs3 = map2 (\<lambda>p s. p / s) (true_maggies obs3) demo_snr_vector"
    by blast
  then have v3: "maggies_unc obs3 = [2, 1, 2, 1, 2, 1, 2, 1, 2, 1, 2, 1, 2, 1, 4, 1 / 2]"
    by (simp add: t3 demo_snr_vector_def)
  have "maggies obs \<noteq> maggies obs2"
    by (simp add: m m2)
  moreover have "maggies_unc obs = [1, 1, 1, 1, 1, 1, 1, 1, 1, 1, 1, 1, 1, 1, 1, 1]"
    by (simp add: sc t)
  ultimately show ?thesis
    using l l2 l3 len3 v3 eq sc by blast
qed

subsection \<open>Deduplication of the filters\<close>

lemma first_index_less: "y \<in> set xs \<Longrightarrow> first_index xs y < length xs"
  by (induction xs) auto

lemma nth_first_index: "y \<in> set xs \<Longrightarrow> xs ! first_index xs y = y"
  by (induction xs) auto

lemma first_index_nth_distinct:
  "distinct xs \<Longrightarrow> i < length xs \<Longrightarrow> first_index xs (xs ! i) = i"
proof (induction xs arbitrary: i)
  case Nil
  then show ?case by simp
next
  case (Cons x xs)
  then show ?case
    by (cases i) auto
qed

lemma first_index_idem:
  "y \<in> set xs \<Longrightarrow> first_index xs (xs ! first_index xs y) = first_index xs y"
  by (simp add: nth_first_index)

lemma representatives_reindex:
  assumes d: "distinct (map filt_name V)"
    and s: "set (map filt_name V) = set (map filt_name fs)"
    and r: "\<forall>k<length V. V ! k = fs ! first_index (map filt_name fs) (filt_name (V ! k))"
  defines "inds \<equiv> map (first_index (map filt_name V)) (map filt_name fs)"
  shows "\<forall>k\<in>set inds. k < length V"
    and "\<forall>k<length V. k \<in> set inds"
    and "map (\<lambda>k. V ! k) inds = map (representative fs) fs"
proof -
  let ?vn = "map filt_name V" and ?names = "map filt_name fs"
  have in_range: "first_index ?vn n < length V" if "n \<in> set ?names" for n
    using first_index_less [of n ?vn] that s by simp
  show "\<forall>k\<in>set inds. k < length V"
    using in_range by (auto simp: inds_def)
  show "\<forall>k<length V. k \<in> set inds"
  proof (intro allI impI)
    fix k assume k: "k < length V"
    then have "?vn ! k \<in> set ?names"
      using s by (metis length_map nth_mem)
    moreover have "first_index ?vn (?vn ! k) = k"
      using first_index_nth_distinct [OF d] k by simp
    ultimately show "k \<in> set inds"
      unfolding inds_def set_map by (metis image_eqI)
  qed
  show "map (\<lambda>k. V ! k) inds = map (representative fs) fs"
  proof (rule nth_equalityI)
    show "length (map (\<lambda>k. V ! k) inds) = length (map (representative fs) fs)"
      by (simp add: inds_def)
  next
    fix j assume "j < length (map (\<lambda>k. V ! k) inds)"
    then have j: "j < length fs" by (simp add: inds_def)
    let ?n = "filt_name (fs ! j)"
    have nin: "?n \<in> set ?names" using j by auto
    let ?k = "first_index ?vn ?n"
    have k: "?k < length V" by (rule in_range [OF nin])
    have "?n \<in> set ?vn" using nin s by simp
    then have name: "filt_name (V ! ?k) = ?n"
      using nth_first_index [of ?n ?vn] k by simp
    have "V ! ?k = fs ! first_index ?names (filt_name (V ! ?k))"
      using r k by blast
    then have "V ! ?k = representative fs (fs ! j)"
      by (simp add: name representative_def)
    then show "map (\<lambda>k. V ! k) inds ! j = map (representative fs) fs ! j"
      using j by (simp add: inds_def)
  qed
qed

lemma unique_filters_representatives:
  fixes fs :: "filterband list"
  defines "names \<equiv> map filt_name fs"
  defines "V \<equiv> map (\<lambda>i. fs ! i) (fst (snd (np_unique names)))"
  shows "map filt_name V = sort (remdups names)"
    and "distinct (map filt_name V)"
    and "set (map filt_name V) = set names"
    and "\<forall>k<length V. V ! k = fs ! first_index names (filt_name (V ! k))"
    and "snd (snd (np_unique names)) = map (first_index (map filt_name V)) names"
proof -
  let ?u = "sort (remdups names)"
  have V: "V = map (\<lambda>n. fs ! first_index names n) ?u"
    by (simp add: V_def np_unique_def Let_def comp_def)
  have mem: "n \<in> set names" if "n \<in> set ?u" for n
    using that by simp
  have nm: "filt_name (fs ! first_index names n) = n" if "n \<in> set names" for n
  proof -
    have "first_index names n < length fs"
      using first_index_less [OF that] by (simp add: names_def)
    then have "filt_name (fs ! first_index names n) = names ! first_index names n"
      by (simp add: names_def)
    then show ?thesis using nth_first_index [OF that] by simp
  qed
  have "map (\<lambda>n. filt_name (fs ! first_index names n)) ?u = ?u"
    by (rule map_idI) (simp add: nm)
  then show vn: "map filt_name V = ?u"
    by (simp add: V comp_def)
  show "distinct (map filt_name V)"
    by (simp add: vn)
  show "set (map filt_name V) = set names"
    by (simp add: vn)
  show "\<forall>k<length V. V ! k = fs ! first_index names (filt_name (V ! k))"
  proof (intro allI impI)
    fix k assume k: "k < length V"
    then have ku: "k < length ?u" by (simp add: V)
    then have "?u ! k \<in> set names"
      using nth_mem [OF ku] by simp
    then show "V ! k = fs ! first_index names (filt_name (V ! k))"
      using ku by (simp add: V nm)
  qed
  show "snd (snd (np_unique names)) = map (first_index (map filt_name V)) names"
    by (simp add: vn np_unique_def Let_def)
qed

lemma dedup_representatives:
  fixes fs :: "filterband list"
  defines "names \<equiv> map filt_name fs"
  defines "V \<equiv> dedup_by_name fs"
  shows "distinct (map filt_name V)"
    and "set (map filt_name V) = set names"
    and "\<forall>k<length V. V ! k = fs ! first_index names (filt_name (V ! k))"
proof -
  let ?P = "\<lambda>i. first_index names (filt_name (fs ! i)) = i"
  let ?is = "filter ?P [0..<length fs]"
  have V: "V = map (\<lambda>i. fs ! i) ?is"
    by (simp add: V_def dedup_by_name_def names_def)
  have vn: "map filt_name V = map (\<lambda>i. names ! i) ?is"
    unfolding V by (simp add: names_def)
  have inj: "inj_on (\<lambda>i. names ! i) (set ?is)"
  proof (rule inj_onI)
    fix i j assume a: "i \<in> set ?is" "j \<in> set ?is" and e: "names ! i = names ! j"
    from a have fi: "first_index names (names ! i) = i" and fj: "first_index names (names ! j) = j"
      by (simp_all add: names_def)
    have "i = first_index names (names ! i)"
      by (rule fi [symmetric])
    also have "\<dots> = first_index names (names ! j)"
      by (simp only: e)
    also have "\<dots> = j"
      by (rule fj)
    finally show "i = j" .
  qed
  have "distinct ?is"
    by simp
  then have "distinct (map (\<lambda>i. names ! i) ?is)"
    using inj by (rule distinct_map [THEN iffD2, OF conjI])
  then show "distinct (map filt_name V)"
    by (simp only: vn)
  show "set (map filt_name V) = set names"
  proof
    show "set (map filt_name V) \<subseteq> set names"
      unfolding vn by (auto simp: names_def)
    show "set names \<subseteq> set (map filt_name V)"
    proof
      fix n assume n: "n \<in> set names"
      let ?i = "first_index names n"
      have i: "?i < length fs" using first_index_less [OF n] by (simp add: names_def)
      have ni: "names ! ?i = n" by (rule nth_first_index [OF n])
      then have "filt_name (fs ! ?i) = n" using i by (simp add: names_def)
      then have "?i \<in> set ?is" using i by simp
      then have "names ! ?i \<in> set (map (\<lambda>i. names ! i) ?is)"
        by (metis (no_types, lifting) image_eqI set_map)
      then show "n \<in> set (map filt_name V)"
        by (simp only: vn ni)
    qed
  qed
  show "\<forall>k<length V. V ! k = fs ! first_index names (filt_name (V ! k))"
  proof (intro allI impI)
    fix k assume k: "k < length V"
    then have k': "k < length ?is" by (simp add: V)
    then have "?is ! k \<in> set ?is" by (rule nth_mem)
    then have p: "first_index names (filt_name (fs ! (?is ! k))) = ?is ! k"
      by simp
    have "V ! k = fs ! (?is ! k)"
      using k' by (simp add: V)
    then show "V ! k = fs ! first_index names (filt_name (V ! k))"
      using p by simp
  qed
qed

lemma representative_id:
  assumes "inj_on filt_name (set fs)"
  shows "map (representative fs) fs = fs"
proof (rule nth_equalityI)
  show "length (map (representative fs) fs) = length fs" by simp
next
  fix j assume "j < length (map (representative fs) fs)"
  then have j: "j < length fs" by simp
  let ?names = "map filt_name fs"
  let ?n = "filt_name (fs ! j)"
  have nin: "?n \<in> set ?names" using j by auto
  let ?i = "first_index ?names ?n"
  have i: "?i < length fs" using first_index_less [OF nin] by simp
  have "?names ! ?i = ?n" by (rule nth_first_index [OF nin])
  then have "filt_name (fs ! ?i) = filt_name (fs ! j)" using i by simp
  then have "fs ! ?i = fs ! j"
    using assms i j by (meson inj_onD nth_mem)
  then show "map (representative fs) fs ! j = fs ! j"
    using j by (simp add: representative_def)
qed

lemma err_all_Inr_nth:
  "err_all ms = Inr vs \<longleftrightarrow> length vs = length ms \<and> (\<forall>i<length ms. ms ! i = Inr (vs ! i))"
  unfolding err_all_Inr_iff by (auto simp: list_eq_iff_nth_eq)

lemma getSED_Inr_iff:
  "getSED ext wa flux fl = Inr mags \<longleftrightarrow>
     length mags = length flux
     \<and> (\<forall>i<length flux. length (mags ! i) = length fl
            \<and> (\<forall>k<length fl. ab_mag ext (fl ! k) wa (flux ! i) = Inr (mags ! i ! k)))"
  unfolding getSED_def err_all_Inr_nth by (simp add: err_all_Inr_nth)

lemma getSED_reindex:
  assumes g: "getSED ext wa flux V = Inr mags"
    and range: "\<forall>k\<in>set inds. k < length V"
  shows "getSED ext wa flux (map (\<lambda>k. V ! k) inds) = Inr (map (\<lambda>row. map (\<lambda>k. row ! k) inds) mags)"
  using g range unfolding getSED_Inr_iff by simp

lemma getSED_covered:
  assumes g: "getSED ext wa flux (map (\<lambda>k. V ! k) inds) = Inr m'"
    and cover: "\<forall>k<length V. k \<in> set inds"
  shows "\<exists>mags. getSED ext wa flux V = Inr mags"
proof -
  define mags where
    "mags = map (\<lambda>i. map (\<lambda>k. m' ! i ! first_index inds k) [0..<length V]) [0..<length flux]"
  have "getSED ext wa flux V = Inr mags"
    unfolding getSED_Inr_iff
  proof (intro conjI allI impI)
    show "length mags = length flux" by (simp add: mags_def)
  next
    fix i assume i: "i < length flux"
    then show "length (mags ! i) = length V" by (simp add: mags_def)
  next
    fix i k assume i: "i < length flux" and k: "k < length V"
    let ?j = "first_index inds k"
    from cover k have kin: "k \<in> set inds" by blast
    have j: "?j < length inds" by (rule first_index_less [OF kin])
    have jk: "inds ! ?j = k" by (rule nth_first_index [OF kin])
    from g i j have "ab_mag ext (V ! (inds ! ?j)) wa (flux ! i) = Inr (m' ! i ! ?j)"
      unfolding getSED_Inr_iff by simp
    then show "ab_mag ext (V ! k) wa (flux ! i) = Inr (mags ! i ! k)"
      using i k by (simp add: jk mags_def)
  qed
  then show ?thesis ..
qed

lemma getSED_row_length:
  assumes "getSED ext wa flux V = Inr mags"
  shows "\<forall>row\<in>set mags. length row = length V"
  using assms unfolding getSED_Inr_iff by (auto simp: in_set_conv_nth)

lemma project_filters_reindex:
  assumes p: "project_filters ext wa sa V = Inr ph"
    and range: "\<forall>k\<in>set inds. k < length V"
  shows "\<exists>P. ph = Phot2 P \<and> (\<forall>row\<in>set P. length row = length V)
           \<and> project_filters ext wa sa (map (\<lambda>k. V ! k) inds)
               = Inr (Phot2 (map (\<lambda>row. map (\<lambda>k. row ! k) inds) P))"
proof -
  from p obtain flux mags where f: "sed_flux ext wa sa = Inr flux"
    and g: "getSED ext wa flux V = Inr mags"
    and ph: "ph = Phot2 (map (map (\<lambda>m. 10 powr (- 0.4 * m))) mags)"
    by (auto simp: project_filters_def err_bind_Inr_iff)
  let ?P = "map (map (\<lambda>m. 10 powr (- 0.4 * m))) mags"
  have len: "\<forall>row\<in>set ?P. length row = length V"
    using getSED_row_length [OF g] by auto
  have "map (map (\<lambda>m. 10 powr (- 0.4 * m))) (map (\<lambda>row. map (\<lambda>k. row ! k) inds) mags)
        = map (\<lambda>row. map (\<lambda>k. row ! k) inds) ?P"
    using getSED_row_length [OF g] range by (auto simp: comp_def)
  then have "project_filters ext wa sa (map (\<lambda>k. V ! k) inds)
               = Inr (Phot2 (map (\<lambda>row. map (\<lambda>k. row ! k) inds) ?P))"
    using f getSED_reindex [OF g range] by (simp add: project_filters_def)
  with ph len show ?thesis by blast
qed

lemma project_filters_covered:
  assumes p: "project_filters ext wa sa (map (\<lambda>k. V ! k) inds) = Inr ph"
    and cover: "\<forall>k<length V. k \<in> set inds"
  shows "\<exists>ph0. project_filters ext wa sa V = Inr ph0"
proof -
  from p obtain flux m' where f: "sed_flux ext wa sa = Inr flux"
    and g: "getSED ext wa flux (map (\<lambda>k. V ! k) inds) = Inr m'"
    by (auto simp: project_filters_def err_bind_Inr_iff)
  from getSED_covered [OF g cover] obtain mags where "getSED ext wa flux V = Inr mags" ..
  with f show ?thesis
    by (simp add: project_filters_def)
qed

lemma phot_div_Phot2:
  assumes "d \<noteq> 0"
  shows "phot_div (Phot2 P) d = Inr (Phot2 (map (map (\<lambda>v. v / d)) P))"
proof -
  have row: "err_all (map (\<lambda>v. np_div v d) row) = Inr (map (\<lambda>v. v / d) row)" for row
    using assms by (simp add: err_all_Inr_iff np_div_def)
  have "err_all (map (\<lambda>row. err_all (map (\<lambda>v. np_div v d) row)) P) = Inr (map (map (\<lambda>v. v / d)) P)"
    by (simp add: err_all_Inr_iff row)
  then show ?thesis
    by (simp add: phot_div_def)
qed

lemma scale_reindex:
  fixes row :: "real list"
  assumes "\<forall>k\<in>set inds. k < length row"
  shows "map (\<lambda>x. x * m) (map (\<lambda>k. row ! k) inds) = map (\<lambda>k. map (\<lambda>x. x * m) row ! k) inds"
  using assms by simp

lemma times_column_reindex:
  fixes Q :: "real list list"
  assumes len: "\<forall>row\<in>set Q. length row = L" and range: "\<forall>k\<in>set inds. k < L"
  shows "times_column (map (\<lambda>row. map (\<lambda>k. row ! k) inds) Q) col =
     (case times_column Q col of
        Inl e \<Rightarrow> Inl e
      | Inr R \<Rightarrow> Inr (map (\<lambda>row. map (\<lambda>k. row ! k) inds) R))"
proof -
  let ?f = "\<lambda>row :: real list. map (\<lambda>k. row ! k) inds"
  have comm: "map (\<lambda>x. x * m) (?f row) = ?f (map (\<lambda>x. x * m) row)" if "row \<in> set Q" for row m
    using that len range by (intro scale_reindex) auto
  have a: "map2 (\<lambda>row m. map (\<lambda>x. x * m) row) (map ?f Q) col
         = map ?f (map2 (\<lambda>row m. map (\<lambda>x. x * m) row) Q col)"
  proof -
    have "map2 (\<lambda>row m. map (\<lambda>x. x * m) row) (map ?f Q) col
          = map (\<lambda>(row, m). map (\<lambda>x. x * m) (?f row)) (zip Q col)"
      by (simp add: zip_map1 case_prod_unfold)
    also have "\<dots> = map (\<lambda>(row, m). ?f (map (\<lambda>x. x * m) row)) (zip Q col)"
      by (rule map_cong) (auto dest: set_zip_leftD simp: comm simp del: map_map)
    also have "\<dots> = map ?f (map2 (\<lambda>row m. map (\<lambda>x. x * m) row) Q col)"
      by (simp add: case_prod_unfold)
    finally show ?thesis .
  qed
  have b: "map (\<lambda>m. map (\<lambda>x. x * m) (hd (map ?f Q))) col
         = map ?f (map (\<lambda>m. map (\<lambda>x. x * m) (hd Q)) col)" if "length Q = 1"
  proof -
    from that obtain q where Q: "Q = [q]" by (cases Q) auto
    have "map (\<lambda>m. map (\<lambda>x. x * m) (?f q)) col = map (\<lambda>m. ?f (map (\<lambda>x. x * m) q)) col"
      using comm [of q] by (simp only: Q list.set_intros)
    also have "\<dots> = map ?f (map (\<lambda>m. map (\<lambda>x. x * m) q) col)"
      by (simp add: comp_def)
    finally show ?thesis
      by (simp only: Q list.map list.sel)
  qed
  have c: "map (map (\<lambda>x. x * hd col)) (map ?f Q) = map ?f (map (map (\<lambda>x. x * hd col)) Q)"
  proof -
    have "map (map (\<lambda>x. x * hd col)) (map ?f Q) = map (\<lambda>row. map (\<lambda>x. x * hd col) (?f row)) Q"
      by simp
    also have "\<dots> = map (\<lambda>row. ?f (map (\<lambda>x. x * hd col) row)) Q"
      by (rule map_cong) (simp_all add: comm del: map_map)
    also have "\<dots> = map ?f (map (map (\<lambda>x. x * hd col)) Q)"
      by simp
    finally show ?thesis .
  qed
  show ?thesis
    unfolding times_column_def
    by (simp only: length_map a b c if_distrib [of "case_sum Inl (\<lambda>R. Inr (map ?f R))"] sum.case cong: if_cong)
qed

lemma times_column_row_length:
  fixes Q :: "real list list"
  assumes "times_column Q col = Inr R" and "\<forall>row\<in>set Q. length row = L"
  shows "\<forall>row\<in>set R. length row = L"
proof -
  have hdQ: "length (hd Q) = L" if "length Q = 1"
  proof -
    from that obtain q where "Q = [q]" by (cases Q) auto
    with assms(2) show ?thesis by simp
  qed
  from assms hdQ show ?thesis
    by (auto simp: times_column_def split: if_splits dest!: set_zip_leftD)
qed

lemma axis_index_less: "axis_index n c = Inr r \<Longrightarrow> r < n"
  by (auto simp: axis_index_def split: if_splits)

lemma element_reindex:
  fixes R :: "real list list"
  assumes len: "\<forall>row\<in>set R. length row = L" and range: "\<forall>k\<in>set inds. k < L"
    and j: "j < length inds"
  shows "element (map (\<lambda>row. map (\<lambda>k. row ! k) inds) R) c j = element R c (inds ! j)"
proof (cases "axis_index (length R) c")
  case (Inl e)
  then show ?thesis by (simp add: element_def)
next
  case (Inr r)
  then have r: "r < length R" by (rule axis_index_less)
  then have "length (R ! r) = L" using len by simp
  moreover have "inds ! j < L" using range j by simp
  ultimately show ?thesis
    using Inr r j by (simp add: element_def)
qed

lemma fancy_index_reindex:
  fixes R :: "real list list"
  assumes len: "\<forall>row\<in>set R. length row = L" and range: "\<forall>k\<in>set inds. k < L"
  shows "fancy_index (map (\<lambda>row. map (\<lambda>k. row ! k) inds) R) component [0..<length inds]
       = fancy_index R component inds"
proof -
  let ?R' = "map (\<lambda>row. map (\<lambda>k. row ! k) inds) R"
  note el = element_reindex [OF len range]
  have m: "map (element ?R' c) [0..<length inds] = map (element R c) inds" for c
    by (rule nth_equalityI) (simp_all add: el)
  show ?thesis
  proof (cases component)
    case (CompScalar c)
    then show ?thesis by (simp add: fancy_index_def m)
  next
    case (CompArray cs)
    have "broadcast (element ?R') cs [0..<length inds] = broadcast (element R) cs inds"
    proof -
      have a: "map2 (element ?R') cs [0..<length inds] = map2 (element R) cs inds"
        if "length cs = length inds"
        using that by (intro nth_equalityI) (simp_all add: el)
      have c: "map (\<lambda>x. element ?R' x (hd [0..<length inds])) cs = map (\<lambda>x. element R x (hd inds)) cs"
        if "length inds = 1"
      proof -
        from that obtain k where k: "inds = [k]" by (cases inds) auto
        have "element ?R' x 0 = element R x (inds ! 0)" for x
          by (rule el) (simp add: k)
        then show ?thesis by (simp add: k)
      qed
      show ?thesis
        unfolding broadcast_def using a c by (simp add: m)
    qed
    then show ?thesis by (simp add: fancy_index_def CompArray)
  qed
qed

lemma dim_and_normalize_reindex:
  fixes P :: "real list list"
  assumes len: "\<forall>row\<in>set P. length row = L" and range: "\<forall>k\<in>set inds. k < L"
  shows "dim_and_normalize ext ps component sa (Phot2 (map (\<lambda>row. map (\<lambda>k. row ! k) inds) P))
            (Some [0..<length inds]) mfrac
       = dim_and_normalize ext ps component sa (Phot2 P) (Some inds) mfrac"
proof -
  let ?f = "\<lambda>row :: real list. map (\<lambda>k. row ! k) inds"
  have tail: "err_bind (phot_div (Phot2 (map ?f P)) d) (\<lambda>phot1.
              err_bind mm (\<lambda>mass1.
              err_bind (spec_times_mass s1 mass1) (\<lambda>sa'.
              err_bind (phot_times_mass phot1 mass1) (\<lambda>phot2.
              err_bind (fancy_index phot2 component [0..<length inds]) (\<lambda>phot.
              Inr (sa', phot, mfrac))))))
            = err_bind (phot_div (Phot2 P) d) (\<lambda>phot1.
              err_bind mm (\<lambda>mass1.
              err_bind (spec_times_mass s1 mass1) (\<lambda>sa'.
              err_bind (phot_times_mass phot1 mass1) (\<lambda>phot2.
              err_bind (fancy_index phot2 component inds) (\<lambda>phot.
              Inr (sa', phot, mfrac))))))"
    if d: "d \<noteq> 0" for d s1 and mm :: "error + real list"
  proof -
    let ?Q = "map (map (\<lambda>v. v / d)) P"
    have lenQ: "\<forall>row\<in>set ?Q. length row = L" using len by simp
    have Q': "map (map (\<lambda>v. v / d)) (map ?f P) = map ?f ?Q"
      using len range by simp
    have step: "err_bind (phot_times_mass (Phot2 (map ?f ?Q)) mass1) (\<lambda>phot2.
              err_bind (fancy_index phot2 component [0..<length inds]) (\<lambda>phot.
              Inr (sa', phot, mfrac)))
          = err_bind (phot_times_mass (Phot2 ?Q) mass1) (\<lambda>phot2.
              err_bind (fancy_index phot2 component inds) (\<lambda>phot.
              Inr (sa', phot, mfrac)))" for mass1 sa'
    proof (cases "times_column ?Q mass1")
      case (Inl e)
      then show ?thesis
        by (simp add: phot_times_mass_def times_column_reindex [OF lenQ range] del: map_map)
    next
      case (Inr R)
      have "\<forall>row\<in>set R. length row = L"
        by (rule times_column_row_length [OF Inr lenQ])
      from fancy_index_reindex [OF this range] Inr show ?thesis
        by (simp add: phot_times_mass_def times_column_reindex [OF lenQ range] del: map_map)
    qed
    show ?thesis
      by (simp only: phot_div_Phot2 [OF d] Q' err_bind_simps step)
  qed
  show ?thesis
  proof (cases "distance_factor ext ps")
    case (Inl e)
    then show ?thesis by (simp add: dim_and_normalize_def)
  next
    case (Inr d)
    show ?thesis
    proof (cases "d = 0")
      case True
      with Inr show ?thesis by (simp add: dim_and_normalize_def np_div_def)
    next
      case False
      show ?thesis
        unfolding dim_and_normalize_def Inr err_bind_simps Let_def option.case
        by (simp only: tail [OF False])
    qed
  qed
qed

lemma spectrum_by_projection_reindex:
  assumes range: "\<forall>k\<in>set inds. k < length V" and cover: "\<forall>k<length V. k \<in> set inds"
  shows "spectrum_by_projection ext V inds component ps = Inr r \<longleftrightarrow>
         spectrum_by_projection ext (map (\<lambda>k. V ! k) inds) [0..<length inds] component ps = Inr r"
proof -
  have inner: "err_bind (project_filters ext wa sa V) (\<lambda>phot.
                  dim_and_normalize ext ps component sa phot (Some inds) mfrac) = Inr r
           \<longleftrightarrow> err_bind (project_filters ext wa sa (map (\<lambda>k. V ! k) inds)) (\<lambda>phot.
                  dim_and_normalize ext ps component sa phot (Some [0..<length inds]) mfrac) = Inr r"
    for wa sa mfrac
  proof (cases "project_filters ext wa sa V")
    case (Inl e)
    have "project_filters ext wa sa (map (\<lambda>k. V ! k) inds) \<noteq> Inr ph" for ph
      using project_filters_covered [OF _ cover, of ext wa sa ph] Inl by auto
    then have "\<exists>e'. project_filters ext wa sa (map (\<lambda>k. V ! k) inds) = Inl e'"
      by (cases "project_filters ext wa sa (map (\<lambda>k. V ! k) inds)") auto
    with Inl show ?thesis by auto
  next
    case (Inr ph)
    from project_filters_reindex [OF Inr range] obtain P where
      ph: "ph = Phot2 P" and len: "\<forall>row\<in>set P. length row = length V"
      and pr: "project_filters ext wa sa (map (\<lambda>k. V ! k) inds)
               = Inr (Phot2 (map (\<lambda>row. map (\<lambda>k. row ! k) inds) P))"
      by blast
    show ?thesis
      by (simp only: Inr pr ph err_bind_simps dim_and_normalize_reindex [OF len range])
  qed
  show ?thesis
    unfolding spectrum_by_projection_def
    by (cases "observed_frame ext ps") (auto simp: inner split: prod.splits)
qed

lemma err_bind_assoc:
  "err_bind (err_bind m f) g = err_bind m (\<lambda>x. err_bind (f x) g)"
  by (cases m) simp_all

lemma get_spectrum_as_projection:
  "get_spectrum ext (Some fs) component ps =
     spectrum_by_projection ext
       (map (\<lambda>i. fs ! i) (fst (snd (np_unique (map filt_name fs)))))
       (snd (snd (np_unique (map filt_name fs)))) component ps"
proof -
  have "err_bind (observed_frame_photometry ext wa sa (Some fs)) (\<lambda>(phot, filter_ind).
          dim_and_normalize ext ps component sa phot filter_ind mfrac)
      = err_bind (project_filters ext wa sa (map (\<lambda>i. fs ! i) (fst (snd (np_unique (map filt_name fs)))))) (\<lambda>phot.
          dim_and_normalize ext ps component sa phot (Some (snd (snd (np_unique (map filt_name fs))))) mfrac)"
    for wa sa mfrac
    by (simp add: observed_frame_photometry_def project_filters_def Let_def err_bind_assoc)
  then show ?thesis
    by (simp add: get_spectrum_def spectrum_by_projection_def)
qed

lemma get_spectrum_by_representatives:
  "get_spectrum ext (Some fs) component ps = Inr r \<longleftrightarrow>
   undeduplicated_spectrum ext (map (representative fs) fs) component ps = Inr r"
proof -
  let ?names = "map filt_name fs"
  let ?V = "map (\<lambda>i. fs ! i) (fst (snd (np_unique ?names)))"
  let ?I = "snd (snd (np_unique ?names))"
  note u = unique_filters_representatives [of fs]
  have I: "?I = map (first_index (map filt_name ?V)) ?names"
    by (rule u(5))
  note rr = representatives_reindex [OF u(2) u(3) u(4)]
  have range: "\<forall>k\<in>set ?I. k < length ?V" and cover: "\<forall>k<length ?V. k \<in> set ?I"
    and reps: "map (\<lambda>k. ?V ! k) ?I = map (representative fs) fs"
    using rr unfolding I [symmetric] by blast+
  have len: "length ?I = length fs"
    by (simp add: np_unique_def Let_def)
  show ?thesis
    unfolding get_spectrum_as_projection undeduplicated_spectrum_def
    using spectrum_by_projection_reindex [OF range cover, of ext component ps r]
    by (simp only: reps len length_map)
qed

lemma deduplicated_by_representatives:
  "deduplicated_spectrum ext fs component ps = Inr r \<longleftrightarrow>
   undeduplicated_spectrum ext (map (representative fs) fs) component ps = Inr r"
proof -
  let ?names = "map filt_name fs"
  let ?V = "dedup_by_name fs"
  let ?I = "expand_index fs"
  note d = dedup_representatives [of fs]
  have I: "?I = map (first_index (map filt_name ?V)) ?names"
    by (simp add: expand_index_def comp_def)
  note rr = representatives_reindex [OF d(1) d(2) d(3)]
  have range: "\<forall>k\<in>set ?I. k < length ?V" and cover: "\<forall>k<length ?V. k \<in> set ?I"
    and reps: "map (\<lambda>k. ?V ! k) ?I = map (representative fs) fs"
    using rr unfolding I [symmetric] by blast+
  have len: "length ?I = length fs"
    by (simp add: expand_index_def)
  show ?thesis
    unfolding deduplicated_spectrum_def undeduplicated_spectrum_def
    using spectrum_by_projection_reindex [OF range cover, of ext component ps r]
    by (simp only: reps len length_map)
qed

text \<open>
  Claim C8. For every filter list, \<^verbatim>\<open>get_spectrum\<close> returns a triple exactly when the
  photometry computed for the list deduplicated by name and expanded back to the
  original order does, and then the two triples are equal, whatever order
  \<^verbatim>\<open>np.unique\<close> gives to the unique filters. When filters of one name are one filter,
  the same holds against the photometry computed for every entry of the original list:
  deduplication changes no photometric value.
\<close>

theorem deduplication_preserves_photometry:
  "(get_spectrum ext (Some fs) component ps = Inr r
      \<longleftrightarrow> deduplicated_spectrum ext fs component ps = Inr r)
   \<and> (inj_on filt_name (set fs) \<longrightarrow>
        (get_spectrum ext (Some fs) component ps = Inr r
           \<longleftrightarrow> undeduplicated_spectrum ext fs component ps = Inr r))"
proof (intro conjI impI)
  show "get_spectrum ext (Some fs) component ps = Inr r
      \<longleftrightarrow> deduplicated_spectrum ext fs component ps = Inr r"
    by (simp only: get_spectrum_by_representatives deduplicated_by_representatives)
  assume "inj_on filt_name (set fs)"
  then have "map (representative fs) fs = fs"
    by (rule representative_id)
  then show "get_spectrum ext (Some fs) component ps = Inr r
           \<longleftrightarrow> undeduplicated_spectrum ext fs component ps = Inr r"
    by (simp only: get_spectrum_by_representatives)
qed

lemma demo_unique:
  "np_unique [''f435w_goodsn'', ''f160w_goodsn'', ''f435w_goodsn'']
     = ([''f160w_goodsn'', ''f435w_goodsn''], [1, 0], [1, 0, 1])"
  by code_simp

lemma demo_photometry:
  "observed_frame_photometry demo_ext [1000, 2000, 4000]
      (Flux2 [[1, 2, 3], [2, 2, 3], [6 / 5, 2, 3]]) (Some demo_filters)
   = Inr (Phot2 [[10, 1], [10, 1], [10, 1]], Some [1, 0, 1])"
  by (simp add: observed_frame_photometry_def Let_def demo_unique sed_flux_def getSED_def demo_ext_def demo_ab_mag_def np_div_def
      np_multiply_def broadcast_def demo_filters_def filter_A_def filter_B_def)

lemma demo_get_spectrum:
  "\<exists>sa mfrac. get_spectrum demo_ext (Some demo_filters) (CompScalar (- 1)) demo_params
      = Inr (sa, [50000000000, 500000000000, 50000000000], mfrac)"
  unfolding get_spectrum_def demo_observed_frame err_bind_simps prod.case demo_photometry
  by (simp add: dim_and_normalize_def distance_factor_def demo_params_def demo_ext_def
      np_div_def phot_div_def spec_times_mass_def phot_times_mass_def times_column_def
      scale_spec_def fancy_index_def axis_index_def element_def has_key_def Let_def)

text \<open>
  The hypothesis of C8 on a list that names one filter twice: the three computations
  return the same triple, with the photometry of the composite in the original order.
\<close>

theorem deduplication_preserves_photometry_witness:
  "inj_on filt_name (set demo_filters)
   \<and> (\<exists>sa mfrac.
         get_spectrum demo_ext (Some demo_filters) (CompScalar (- 1)) demo_params
           = Inr (sa, [50000000000, 500000000000, 50000000000], mfrac)
       \<and> deduplicated_spectrum demo_ext demo_filters (CompScalar (- 1)) demo_params
           = Inr (sa, [50000000000, 500000000000, 50000000000], mfrac)
       \<and> undeduplicated_spectrum demo_ext demo_filters (CompScalar (- 1)) demo_params
           = Inr (sa, [50000000000, 500000000000, 50000000000], mfrac))"
proof -
  have inj: "inj_on filt_name (set demo_filters)"
    by (auto simp: inj_on_def demo_filters_def filter_A_def filter_B_def)
  from demo_get_spectrum obtain sa mfrac where
    g: "get_spectrum demo_ext (Some demo_filters) (CompScalar (- 1)) demo_params
      = Inr (sa, [50000000000, 500000000000, 50000000000], mfrac)"
    by blast
  from deduplication_preserves_photometry
         [of demo_ext demo_filters "CompScalar (- 1)" demo_params
             "(sa, [50000000000, 500000000000, 50000000000], mfrac)"] inj g
  show ?thesis
    by blast
qed

end
